(* ===== verification/Podcastr_Base.thy ===== *)
theory Podcastr_Base
  imports Complex_Main
begin

text \<open>
  Shared vocabulary of the Podcastr development: the named collections the component
  theories put their definitions into, the types that name the model's quantities, and
  the JavaScript semantics of reading an array at a number index, with the lemmas on it
  that the components share.
\<close>

named_theorems store_defs "operations of the playback store (contexts/playerContext.tsx)"
named_theorems render_defs "values the Player component derives while it renders"
named_theorems handler_defs "event handlers of the Player component"
named_theorems audio_defs "operations of the audio element the Player drives"

type_synonym seconds = int
  \<comment> \<open>whole seconds, as the episode durations and the progress counter hold them\<close>

type_synonym js_index = int
  \<comment> \<open>a JavaScript number used as an array index; negative values are possible\<close>

subsection \<open>Reading an array at an index\<close>

text \<open>
  \<open>xs[i]\<close> in JavaScript yields the element when \<open>0 \<le> i < xs.length\<close> and
  \<open>undefined\<close> otherwise; it never throws. \<open>undefined\<close> is \<open>None\<close> here.
\<close>

definition js_nth :: "'a list \<Rightarrow> js_index \<Rightarrow> 'a option" where
  "js_nth xs i = (if 0 \<le> i \<and> i < int (length xs) then Some (xs ! nat i) else None)"

lemma js_nth_Nil [simp]: "js_nth [] i = None"
  by (simp add: js_nth_def)

lemma js_nth_eq_None_iff [simp]:
  "js_nth xs i = None \<longleftrightarrow> i < 0 \<or> int (length xs) \<le> i"
  by (auto simp: js_nth_def)

lemma js_nth_eq_Some_iff:
  "js_nth xs i = Some x \<longleftrightarrow> 0 \<le> i \<and> i < int (length xs) \<and> xs ! nat i = x"
  by (auto simp: js_nth_def)

lemma js_nth_of_nat [simp]:
  "js_nth xs (int n) = (if n < length xs then Some (xs ! n) else None)"
  by (simp add: js_nth_def)

lemma js_nth_Cons_0 [simp]: "js_nth (x # xs) 0 = Some x"
  by (simp add: js_nth_def)

subsection \<open>\<open>Math.floor(Math.random() * n)\<close>\<close>

text \<open>
  \<open>Math.random()\<close> returns a number \<open>r\<close> with \<open>0 \<le> r < 1\<close>; the model takes it as a
  parameter. The index drawn from it lies in \<open>[0, n)\<close> for a non-empty range, and is 0
  for an empty one.
\<close>

lemma floor_scaled_unit_bounds:
  assumes "0 \<le> r" and "r < 1" and "0 < n"
  shows "0 \<le> \<lfloor>r * real n\<rfloor> \<and> \<lfloor>r * real n\<rfloor> < int n"
proof
  show "0 \<le> \<lfloor>r * real n\<rfloor>" using assms(1) by simp
  have "r * real n < 1 * real n"
    using assms by (intro mult_strict_right_mono) auto
  then show "\<lfloor>r * real n\<rfloor> < int n" by (simp add: floor_less_iff)
qed

lemma floor_scaled_zero [simp]: "\<lfloor>r * real (0::nat)\<rfloor> = 0"
  by simp

end
