(* ===== verification/Queue_Cursor.thy ===== *)
theory Queue_Cursor
  imports Podcastr_Base
begin

text \<open>
  The abstract specification of a play queue with a current position: a cursor (a list
  zipper) holding the episodes before the current one (nearest first), the current
  episode, and the episodes after it. Moving forward or back never changes the queue;
  at either end the move does nothing. The playback store of \<open>Player_Context\<close> is shown
  to implement this specification on its non-shuffling navigation.
\<close>

type_synonym 'a cursor = "'a list \<times> 'a \<times> 'a list"

fun cursor_next :: "'a cursor \<Rightarrow> 'a cursor" where
  "cursor_next (b, c, []) = (b, c, [])"
| "cursor_next (b, c, x # a) = (c # b, x, a)"

fun cursor_prev :: "'a cursor \<Rightarrow> 'a cursor" where
  "cursor_prev ([], c, a) = ([], c, a)"
| "cursor_prev (x # b, c, a) = (b, x, c # a)"

fun cursor_queue :: "'a cursor \<Rightarrow> 'a list" where
  "cursor_queue (b, c, a) = rev b @ c # a"

fun cursor_pos :: "'a cursor \<Rightarrow> nat" where
  "cursor_pos (b, c, a) = length b"

fun cursor_current :: "'a cursor \<Rightarrow> 'a" where
  "cursor_current (b, c, a) = c"

definition cursor_at :: "'a list \<Rightarrow> nat \<Rightarrow> 'a cursor" where
  "cursor_at xs i = (rev (take i xs), xs ! i, drop (Suc i) xs)"

subsection \<open>Navigation keeps the queue\<close>

lemma cursor_queue_next [simp]: "cursor_queue (cursor_next z) = cursor_queue z"
  by (cases z rule: cursor_next.cases) auto

lemma cursor_queue_prev [simp]: "cursor_queue (cursor_prev z) = cursor_queue z"
  by (cases z rule: cursor_prev.cases) auto

subsection \<open>A cursor built at a position\<close>

lemma cursor_queue_at [simp]: "i < length xs \<Longrightarrow> cursor_queue (cursor_at xs i) = xs"
  by (simp add: cursor_at_def id_take_nth_drop [symmetric])

lemma cursor_pos_at [simp]: "i < length xs \<Longrightarrow> cursor_pos (cursor_at xs i) = i"
  by (simp add: cursor_at_def)

lemma cursor_current_at [simp]: "cursor_current (cursor_at xs i) = xs ! i"
  by (simp add: cursor_at_def)

lemma cursor_next_at:
  assumes "Suc i < length xs"
  shows "cursor_next (cursor_at xs i) = cursor_at xs (Suc i)"
proof -
  have "drop (Suc i) xs = xs ! Suc i # drop (Suc (Suc i)) xs"
    using assms by (simp add: Cons_nth_drop_Suc)
  moreover have "take (Suc i) xs = take i xs @ [xs ! i]"
    using assms by (simp add: take_Suc_conv_app_nth)
  ultimately show ?thesis by (simp add: cursor_at_def)
qed

lemma cursor_next_at_last:
  assumes "\<not> Suc i < length xs"
  shows "cursor_next (cursor_at xs i) = cursor_at xs i"
  using assms by (simp add: cursor_at_def)

lemma cursor_prev_at:
  assumes "Suc i < length xs"
  shows "cursor_prev (cursor_at xs (Suc i)) = cursor_at xs i"
  using cursor_next_at [OF assms] assms
  by (simp add: cursor_at_def take_Suc_conv_app_nth Cons_nth_drop_Suc)

lemma cursor_prev_at_0 [simp]: "cursor_prev (cursor_at xs 0) = cursor_at xs 0"
  by (simp add: cursor_at_def)

end
