(* ===== verification/Player_Context.thy ===== *)
theory Player_Context
  imports Queue_Cursor
begin

text \<open>
  The playback store of \<open>src/src/contexts/playerContext.tsx\<close>: the five \<open>useState\<close>
  hooks of \<open>PlayerContextProvider\<close> as one record, each function the context exposes as
  one definition that returns the updated record (the setters called in one handler are
  batched by React, so only the final record is observable), the derived booleans
  \<open>hasPrevious\<close>/\<open>hasNext\<close>, the interface of the context as a datatype of calls with
  its dispatch, and the reachable states of the store as an inductive predicate.
  \<open>Math.random()\<close> is the real parameter of \<open>playNext\<close>.
\<close>

record Episode =
  title :: string
  members :: string
  thumbnail :: string
  duration :: seconds
  url :: string

record player_state =
  episodeList :: "Episode list"
  currentEpisodeIndex :: js_index
  isPlaying :: bool
  isLooping :: bool
  isShuffling :: bool

definition initial_player_state :: player_state where
  "initial_player_state =
     \<lparr>episodeList = [], currentEpisodeIndex = 0, isPlaying = False,
      isLooping = False, isShuffling = False\<rparr>"

definition play :: "Episode \<Rightarrow> player_state \<Rightarrow> player_state" where
  [store_defs]: "play ep s = s\<lparr>episodeList := [ep], currentEpisodeIndex := 0, isPlaying := True\<rparr>"

definition playList :: "Episode list \<Rightarrow> js_index \<Rightarrow> player_state \<Rightarrow> player_state" where
  [store_defs]: "playList list index s =
     s\<lparr>episodeList := list, currentEpisodeIndex := index, isPlaying := True\<rparr>"

definition hasPrevious :: "player_state \<Rightarrow> bool" where
  [store_defs]: "hasPrevious s \<longleftrightarrow> currentEpisodeIndex s > 0"

definition hasNext :: "player_state \<Rightarrow> bool" where
  [store_defs]: "hasNext s \<longleftrightarrow>
     isShuffling s \<or> currentEpisodeIndex s + 1 < int (length (episodeList s))"

definition random_index :: "real \<Rightarrow> nat \<Rightarrow> js_index" where
  [store_defs]: "random_index rnd n = \<lfloor>rnd * real n\<rfloor>"
  \<comment> \<open>\<open>Math.floor(Math.random() * episodeList.length)\<close>, \<open>rnd\<close> the value of \<open>Math.random()\<close>\<close>

definition playNext :: "real \<Rightarrow> player_state \<Rightarrow> player_state" where
  [store_defs]: "playNext rnd s =
     (if isShuffling s
      then s\<lparr>currentEpisodeIndex := random_index rnd (length (episodeList s))\<rparr>
      else if hasNext s then s\<lparr>currentEpisodeIndex := currentEpisodeIndex s + 1\<rparr>
      else s)"

definition playPrevious :: "player_state \<Rightarrow> player_state" where
  [store_defs]: "playPrevious s =
     (if hasPrevious s then s\<lparr>currentEpisodeIndex := currentEpisodeIndex s - 1\<rparr> else s)"

definition togglePlay :: "player_state \<Rightarrow> player_state" where
  [store_defs]: "togglePlay s = s\<lparr>isPlaying := \<not> isPlaying s\<rparr>"

definition toggleLoop :: "player_state \<Rightarrow> player_state" where
  [store_defs]: "toggleLoop s = s\<lparr>isLooping := \<not> isLooping s\<rparr>"

definition toggleShuffle :: "player_state \<Rightarrow> player_state" where
  [store_defs]: "toggleShuffle s = s\<lparr>isShuffling := \<not> isShuffling s\<rparr>"

definition setPlayingState :: "bool \<Rightarrow> player_state \<Rightarrow> player_state" where
  [store_defs]: "setPlayingState state s = s\<lparr>isPlaying := state\<rparr>"

definition clearPlayerState :: "player_state \<Rightarrow> player_state" where
  [store_defs]: "clearPlayerState s = s\<lparr>episodeList := [], currentEpisodeIndex := 0\<rparr>"

subsection \<open>The context's interface\<close>

text \<open>
  Every function of \<open>PlayerContextData\<close> that changes the store, as a call; the real
  argument of \<open>PlayNext\<close> is the value \<open>Math.random()\<close> returns during the call.
\<close>

datatype player_call =
    Play Episode
  | PlayList "Episode list" js_index
  | PlayNext real
  | PlayPrevious
  | TogglePlay
  | ToggleLoop
  | ToggleShuffle
  | SetPlayingState bool
  | ClearPlayerState

fun player_apply :: "player_call \<Rightarrow> player_state \<Rightarrow> player_state" where
  "player_apply (Play ep) = play ep"
| "player_apply (PlayList list index) = playList list index"
| "player_apply (PlayNext rnd) = playNext rnd"
| "player_apply PlayPrevious = playPrevious"
| "player_apply TogglePlay = togglePlay"
| "player_apply ToggleLoop = toggleLoop"
| "player_apply ToggleShuffle = toggleShuffle"
| "player_apply (SetPlayingState b) = setPlayingState b"
| "player_apply ClearPlayerState = clearPlayerState"

text \<open>
  The arguments the callers may pass: \<open>Math.random()\<close> lies in \<open>[0, 1)\<close>, and a caller
  of \<open>playList\<close> passes an index of the list (the store itself does not check it).
\<close>

fun call_ok :: "player_call \<Rightarrow> bool" where
  "call_ok (PlayList list index) \<longleftrightarrow> 0 \<le> index \<and> (list \<noteq> [] \<longrightarrow> index < int (length list))"
| "call_ok (PlayNext rnd) \<longleftrightarrow> 0 \<le> rnd \<and> rnd < 1"
| "call_ok _ \<longleftrightarrow> True"

text \<open>The index invariant of the spec: a non-negative index, inside a non-empty queue.\<close>

definition index_ok :: "player_state \<Rightarrow> bool" where
  "index_ok s \<longleftrightarrow> 0 \<le> currentEpisodeIndex s \<and>
     (episodeList s \<noteq> [] \<longrightarrow> currentEpisodeIndex s < int (length (episodeList s)))"

inductive store_reachable :: "player_state \<Rightarrow> bool" where
  init: "store_reachable initial_player_state"
| call: "store_reachable s \<Longrightarrow> call_ok c \<Longrightarrow> store_reachable (player_apply c s)"

text \<open>
  The store seen through the abstract specification of \<open>Queue_Cursor\<close>: a cursor on the
  queue at the current index, or \<open>None\<close> when there is no current episode.
\<close>

definition store_cursor :: "player_state \<Rightarrow> Episode cursor option" where
  "store_cursor s =
     (if 0 \<le> currentEpisodeIndex s \<and> currentEpisodeIndex s < int (length (episodeList s))
      then Some (cursor_at (episodeList s) (nat (currentEpisodeIndex s)))
      else None)"

text \<open>Sample data for the witnesses: episodes told apart by their audio URL.\<close>

definition sample_episode :: "string \<Rightarrow> seconds \<Rightarrow> Episode" where
  "sample_episode u d = \<lparr>title = u, members = '''', thumbnail = '''', duration = d, url = u\<rparr>"

definition sample_queue :: "Episode list" where
  "sample_queue = [sample_episode ''ep-1.mp3'' 200, sample_episode ''ep-2.mp3'' 3600,
     sample_episode ''ep-3.mp3'' 45]"

subsection \<open>Bounds of the index drawn by shuffle\<close>

lemma random_index_bounds:
  "0 \<le> rnd \<Longrightarrow> rnd < 1 \<Longrightarrow> 0 < n \<Longrightarrow> 0 \<le> random_index rnd n \<and> random_index rnd n < int n"
  unfolding random_index_def by (rule floor_scaled_unit_bounds)

subsection \<open>Each call keeps the index invariant\<close>

lemma playNext_index_ok:
  assumes "index_ok s" and "0 \<le> rnd" and "rnd < 1"
  shows "index_ok (playNext rnd s)"
proof (cases "isShuffling s")
  case True
  then show ?thesis
    using assms random_index_bounds [OF assms(2,3), of "length (episodeList s)"]
    by (cases "episodeList s = []") (auto simp: index_ok_def playNext_def random_index_def)
next
  case False
  with assms(1) show ?thesis by (auto simp: index_ok_def playNext_def hasNext_def)
qed

lemma player_apply_index_ok:
  "index_ok s \<Longrightarrow> call_ok c \<Longrightarrow> index_ok (player_apply c s)"
proof (cases c)
  case (PlayNext rnd)
  then show "index_ok s \<Longrightarrow> call_ok c \<Longrightarrow> index_ok (player_apply c s)"
    using playNext_index_ok by simp
qed (auto simp: index_ok_def store_defs)

lemma store_reachable_index_ok_aux: "store_reachable s \<Longrightarrow> index_ok s"
proof (induction rule: store_reachable.induct)
  case init
  show ?case by (simp add: index_ok_def initial_player_state_def)
next
  case (call s c)
  from call.IH call.hyps(2) show ?case by (rule player_apply_index_ok)
qed

subsection \<open>The abstraction to a cursor\<close>

lemma index_ok_store_cursor:
  "index_ok s \<Longrightarrow> (store_cursor s = None) = (episodeList s = [])"
  by (auto simp: index_ok_def store_cursor_def)

lemma shuffle_index_hits:
  assumes "0 \<le> j" and "j < int n"
  shows "random_index (real_of_int j / real n) n = j"
proof -
  from assms have "0 < n" by simp
  then have "real_of_int j / real n * real n = real_of_int j" by simp
  then show ?thesis by (simp add: random_index_def)
qed

lemma shuffle_index_unit:
  assumes "0 \<le> j" and "j < int n"
  shows "0 \<le> real_of_int j / real n \<and> real_of_int j / real n < 1"
  using assms by (simp add: divide_less_eq)

lemma playNext_shuffle_same:
  assumes "isShuffling s" and "index_ok s" and "episodeList s \<noteq> []"
  shows "playNext (real_of_int (currentEpisodeIndex s) / real (length (episodeList s))) s = s \<and>
         0 \<le> real_of_int (currentEpisodeIndex s) / real (length (episodeList s)) \<and>
         real_of_int (currentEpisodeIndex s) / real (length (episodeList s)) < 1"
proof -
  let ?j = "currentEpisodeIndex s" and ?n = "length (episodeList s)"
  have j: "0 \<le> ?j" "?j < int ?n" using assms(2,3) by (auto simp: index_ok_def)
  show ?thesis
    using assms(1) shuffle_index_hits [OF j] shuffle_index_unit [OF j] by (simp add: playNext_def)
qed

text \<open>C1: In every state the store reaches through its operations (with Math.random() in [0,1) and playList given an index of its list), the current index is non-negative and in range, so a current episode exists exactly when the queue is non-empty.\<close>

theorem store_reachable_current_iff_nonempty:
  "store_reachable s \<Longrightarrow>
     index_ok s \<and> (store_cursor s = None \<longleftrightarrow> episodeList s = [])"
  using store_reachable_index_ok_aux index_ok_store_cursor by blast

theorem store_reachable_current_iff_nonempty_witness:
  "store_reachable (player_apply (PlayList sample_queue 2) initial_player_state) \<and>
   index_ok (player_apply (PlayList sample_queue 2) initial_player_state)"
proof -
  have r: "store_reachable (player_apply (PlayList sample_queue 2) initial_player_state)"
    by (rule store_reachable.call [OF store_reachable.init]) (simp add: sample_queue_def)
  show ?thesis using r store_reachable_current_iff_nonempty [OF r] by simp
qed

text \<open>C15: With shuffle on and a non-empty queue, the indices playNext can pick for Math.random() in [0,1) are exactly 0 .. length-1: never out of range, and every episode can be chosen.\<close>

theorem playNext_shuffle_image:
  assumes "isShuffling s" and "episodeList s \<noteq> []"
  shows "(\<lambda>rnd. currentEpisodeIndex (playNext rnd s)) ` {0..<1} =
         {0..<int (length (episodeList s))}"
proof
  show "(\<lambda>rnd. currentEpisodeIndex (playNext rnd s)) ` {0..<1} \<subseteq> {0..<int (length (episodeList s))}"
    using assms random_index_bounds by (auto simp: playNext_def)
next
  show "{0..<int (length (episodeList s))} \<subseteq> (\<lambda>rnd. currentEpisodeIndex (playNext rnd s)) ` {0..<1}"
  proof
    fix j assume "j \<in> {0..<int (length (episodeList s))}"
    then have j: "0 \<le> j" "j < int (length (episodeList s))" by auto
    let ?r = "real_of_int j / real (length (episodeList s))"
    have "currentEpisodeIndex (playNext ?r s) = j"
      using assms(1) shuffle_index_hits [OF j] by (simp add: playNext_def)
    moreover have "?r \<in> {0..<1}" using shuffle_index_unit [OF j] by simp
    ultimately show "j \<in> (\<lambda>rnd. currentEpisodeIndex (playNext rnd s)) ` {0..<1}"
      by (metis image_eqI)
  qed
qed

theorem playNext_shuffle_image_witness:
  "(\<lambda>rnd. currentEpisodeIndex (playNext rnd (initial_player_state\<lparr>episodeList := sample_queue, isShuffling := True\<rparr>))) ` {0..<1} = {0..<3}"
  using playNext_shuffle_image [of "initial_player_state\<lparr>episodeList := sample_queue, isShuffling := True\<rparr>"]
  by (simp add: initial_player_state_def sample_queue_def)

text \<open>C6: With shuffle off, playNext implements the abstract queue cursor's forward move: it steps to the next episode, and at the last episode it does nothing.\<close>

theorem playNext_refines_cursor_next:
  assumes "index_ok s" and "\<not> isShuffling s"
  shows "store_cursor (playNext rnd s) = map_option cursor_next (store_cursor s)"
proof (cases "hasNext s")
  case True
  let ?i = "currentEpisodeIndex s"
  have lt: "Suc (nat ?i) < length (episodeList s)"
    using True assms by (auto simp: hasNext_def index_ok_def)
  have "store_cursor (playNext rnd s) = Some (cursor_at (episodeList s) (Suc (nat ?i)))"
    using True assms lt by (simp add: playNext_def store_cursor_def index_ok_def nat_add_distrib)
  moreover have "store_cursor s = Some (cursor_at (episodeList s) (nat ?i))"
    using assms lt by (simp add: store_cursor_def index_ok_def)
  ultimately show ?thesis using lt by (simp add: cursor_next_at)
next
  case False
  then have "playNext rnd s = s" using assms(2) by (simp add: playNext_def)
  moreover have "\<not> Suc (nat (currentEpisodeIndex s)) < length (episodeList s)"
    using False assms by (auto simp: hasNext_def index_ok_def)
  ultimately show ?thesis
    by (auto simp: store_cursor_def cursor_next_at_last)
qed

text \<open>C7: playPrevious implements the abstract queue cursor's backward move: it steps to the previous episode, and at the first episode it does nothing.\<close>

theorem playPrevious_refines_cursor_prev:
  assumes "index_ok s"
  shows "store_cursor (playPrevious s) = map_option cursor_prev (store_cursor s)"
proof (cases "hasPrevious s")
  case True
  let ?i = "currentEpisodeIndex s"
  show ?thesis
  proof (cases "episodeList s = []")
    case True
    then show ?thesis by (simp add: playPrevious_def store_cursor_def)
  next
    case False
    have lt: "Suc (nat (?i - 1)) < length (episodeList s)" and eq: "Suc (nat (?i - 1)) = nat ?i"
      using \<open>hasPrevious s\<close> assms False by (auto simp: hasPrevious_def index_ok_def)
    have "store_cursor (playPrevious s) = Some (cursor_at (episodeList s) (nat (?i - 1)))"
      using \<open>hasPrevious s\<close> assms False by (auto simp: playPrevious_def store_cursor_def index_ok_def hasPrevious_def)
    moreover have "store_cursor s = Some (cursor_at (episodeList s) (Suc (nat (?i - 1))))"
      using assms False eq by (auto simp: store_cursor_def index_ok_def)
    ultimately show ?thesis using cursor_prev_at [OF lt] by simp
  qed
next
  case False
  then have "playPrevious s = s" by (simp add: playPrevious_def)
  moreover have "currentEpisodeIndex s = 0" using False assms by (simp add: hasPrevious_def index_ok_def)
  ultimately show ?thesis by (auto simp: store_cursor_def)
qed


theorem playNext_refines_cursor_next_witness:
  "index_ok (initial_player_state\<lparr>episodeList := sample_queue, currentEpisodeIndex := 1\<rparr>) \<and>
   \<not> isShuffling (initial_player_state\<lparr>episodeList := sample_queue, currentEpisodeIndex := 1\<rparr>) \<and>
   store_cursor (playNext 0 (initial_player_state\<lparr>episodeList := sample_queue, currentEpisodeIndex := 1\<rparr>)) =
     map_option cursor_next (store_cursor (initial_player_state\<lparr>episodeList := sample_queue, currentEpisodeIndex := 1\<rparr>))"
proof -
  let ?s = "initial_player_state\<lparr>episodeList := sample_queue, currentEpisodeIndex := 1\<rparr>"
  have h1: "index_ok ?s" by (simp add: index_ok_def sample_queue_def)
  have h2: "\<not> isShuffling ?s" by (simp add: initial_player_state_def)
  show ?thesis using h1 h2 playNext_refines_cursor_next [OF h1 h2, of 0] by blast
qed

theorem playPrevious_refines_cursor_prev_witness:
  "index_ok (initial_player_state\<lparr>episodeList := sample_queue, currentEpisodeIndex := 1\<rparr>) \<and>
   store_cursor (playPrevious (initial_player_state\<lparr>episodeList := sample_queue, currentEpisodeIndex := 1\<rparr>)) =
     map_option cursor_prev (store_cursor (initial_player_state\<lparr>episodeList := sample_queue, currentEpisodeIndex := 1\<rparr>))"
proof -
  let ?s = "initial_player_state\<lparr>episodeList := sample_queue, currentEpisodeIndex := 1\<rparr>"
  have h1: "index_ok ?s" by (simp add: index_ok_def sample_queue_def)
  show ?thesis using h1 playPrevious_refines_cursor_prev [OF h1] by blast
qed

text \<open>C23: With shuffle off and hasNext false, playNext leaves the whole state unchanged.\<close>

theorem playNext_at_end_noop:
  "\<not> isShuffling s \<Longrightarrow> \<not> hasNext s \<Longrightarrow> playNext rnd s = s"
  by (simp add: playNext_def)

theorem playNext_at_end_noop_witness:
  "\<not> isShuffling (initial_player_state\<lparr>episodeList := sample_queue, currentEpisodeIndex := 2\<rparr>) \<and>
   \<not> hasNext (initial_player_state\<lparr>episodeList := sample_queue, currentEpisodeIndex := 2\<rparr>) \<and>
   playNext (1 / 2) (initial_player_state\<lparr>episodeList := sample_queue, currentEpisodeIndex := 2\<rparr>) =
     initial_player_state\<lparr>episodeList := sample_queue, currentEpisodeIndex := 2\<rparr>"
  using playNext_at_end_noop [of "initial_player_state\<lparr>episodeList := sample_queue, currentEpisodeIndex := 2\<rparr>" "1 / 2"]
  by (simp add: hasNext_def initial_player_state_def sample_queue_def)

text \<open>C24: At index 0 (or below), playPrevious leaves the whole state unchanged.\<close>

theorem playPrevious_at_start_noop:
  "currentEpisodeIndex s \<le> 0 \<Longrightarrow> playPrevious s = s"
  by (simp add: playPrevious_def hasPrevious_def)

theorem playPrevious_at_start_noop_witness:
  "currentEpisodeIndex (playList sample_queue 0 initial_player_state) \<le> 0 \<and>
   playPrevious (playList sample_queue 0 initial_player_state) = playList sample_queue 0 initial_player_state"
  using playPrevious_at_start_noop [of "playList sample_queue 0 initial_player_state"]
  by (simp add: playList_def)

text \<open>C25: clearPlayerState always empties the queue and resets the index to 0, and leaves isPlaying, isLooping and isShuffling as they were.\<close>

theorem clearPlayerState_resets_queue:
  "episodeList (clearPlayerState s) = [] \<and> currentEpisodeIndex (clearPlayerState s) = 0 \<and>
   isPlaying (clearPlayerState s) = isPlaying s \<and> isLooping (clearPlayerState s) = isLooping s \<and>
   isShuffling (clearPlayerState s) = isShuffling s"
  by (simp add: clearPlayerState_def)

text \<open>C26: Each of togglePlay, toggleLoop and toggleShuffle negates its own flag, leaves every other field unchanged, and applying it twice restores the state.\<close>

theorem toggles_flip_own_flag:
  "isPlaying (togglePlay s) = (\<not> isPlaying s) \<and> (togglePlay s)\<lparr>isPlaying := isPlaying s\<rparr> = s \<and>
   togglePlay (togglePlay s) = s \<and>
   isLooping (toggleLoop s) = (\<not> isLooping s) \<and> (toggleLoop s)\<lparr>isLooping := isLooping s\<rparr> = s \<and>
   toggleLoop (toggleLoop s) = s \<and>
   isShuffling (toggleShuffle s) = (\<not> isShuffling s) \<and>
   (toggleShuffle s)\<lparr>isShuffling := isShuffling s\<rparr> = s \<and> toggleShuffle (toggleShuffle s) = s"
  by (simp add: togglePlay_def toggleLoop_def toggleShuffle_def)

text \<open>C27: play(episode) has the same effect as playList([episode], 0).\<close>

theorem play_is_singleton_playList: "play ep s = playList [ep] 0 s"
  by (simp add: play_def playList_def)

text \<open>C28: playNext and playPrevious change nothing but currentEpisodeIndex: the queue and the three flags are left as they were.\<close>

theorem navigation_moves_only_index:
  "(\<exists>i. playNext rnd s = s\<lparr>currentEpisodeIndex := i\<rparr>) \<and>
   (\<exists>j. playPrevious s = s\<lparr>currentEpisodeIndex := j\<rparr>)"
proof
  show "\<exists>i. playNext rnd s = s\<lparr>currentEpisodeIndex := i\<rparr>"
    by (rule exI [of _ "currentEpisodeIndex (playNext rnd s)"]) (simp add: playNext_def)
  show "\<exists>j. playPrevious s = s\<lparr>currentEpisodeIndex := j\<rparr>"
    by (rule exI [of _ "currentEpisodeIndex (playPrevious s)"]) (simp add: playPrevious_def)
qed

end
