(* ===== verification/Time_String.thy ===== *)
theory Time_String
  imports Podcastr_Base "HOL-Library.Signed_Division"
begin

text \<open>
  \<open>convertDurationToTimeString\<close>, imported by the Player from
  \<open>utils/convertDurationToTimeString\<close>, a file that is not part of the sources under
  \<open>src/\<close>: it is modelled from the spec (section 4.2), which fixes the format
  \<open>HH:MM:SS\<close> with every field zero-padded to two digits, derived from the integer
  seconds. The fields are computed the way JavaScript computes
  \<open>Math.floor(d / 3600)\<close>, \<open>Math.floor((d % 3600) / 60)\<close> and \<open>d % 60\<close>
  (\<open>%\<close> truncates towards zero: \<open>smod\<close>), printed the way \<open>String(n)\<close> prints an
  integer (a minus sign before the digits of a negative one), and padded the way
  \<open>padStart(2, '0')\<close> pads it. On non-negative seconds this is exactly the spec's format. A reader \<open>parse_time_string\<close> of the format is the
  inverse used to state that the printed string determines the duration and that it is
  the only string that reads back as that duration.
\<close>

definition digit_char :: "nat \<Rightarrow> char" where
  "digit_char d = char_of (48 + d)"

fun decimal :: "nat \<Rightarrow> string" where
  "decimal n = (if n < 10 then [digit_char n] else decimal (n div 10) @ [digit_char (n mod 10)])"

definition padStart2 :: "string \<Rightarrow> string" where
  "padStart2 s = replicate (2 - length s) (CHR ''0'') @ s"

definition js_string :: "int \<Rightarrow> string" where
  "js_string n = (if n < 0 then CHR ''-'' # decimal (nat (- n)) else decimal (nat n))"

definition convertDurationToTimeString :: "int \<Rightarrow> string" where
  "convertDurationToTimeString d =
     (let hours = d div 3600; minutes = (d smod 3600) div 60; secs = d smod 60
      in padStart2 (js_string hours) @ '':'' @ padStart2 (js_string minutes) @ '':'' @
         padStart2 (js_string secs))"

definition digit_value :: "char \<Rightarrow> nat option" where
  "digit_value c =
     (let k = (of_char c :: nat) in if 48 \<le> k \<and> k \<le> 57 then Some (k - 48) else None)"

definition parse2 :: "char \<Rightarrow> char \<Rightarrow> nat option" where
  "parse2 a b = (case (digit_value a, digit_value b) of
                   (Some x, Some y) \<Rightarrow> Some (10 * x + y)
                 | _ \<Rightarrow> None)"

fun parse_time_string :: "string \<Rightarrow> nat option" where
  "parse_time_string [h1, h2, c1, m1, m2, c2, s1, s2] =
     (if c1 = CHR '':'' \<and> c2 = CHR '':''
      then (case (parse2 h1 h2, parse2 m1 m2, parse2 s1 s2) of
              (Some h, Some m, Some s) \<Rightarrow>
                if m < 60 \<and> s < 60 then Some (h * 3600 + m * 60 + s) else None
            | _ \<Rightarrow> None)
      else None)"
| "parse_time_string _ = None"

declare decimal.simps [simp del]

subsection \<open>Non-negative seconds\<close>

lemma js_string_int [simp]: "js_string (int n) = decimal n"
  by (simp add: js_string_def)

lemma smod_int_of_nat: "int d smod int m = int (d mod m)"
  by (cases "d = 0") (simp_all add: signed_modulo_int_def zmod_int)

lemma time_string_int:
  "convertDurationToTimeString (int d) =
     padStart2 (decimal (d div 3600)) @ '':'' @ padStart2 (decimal (d mod 3600 div 60)) @ '':'' @
     padStart2 (decimal (d mod 60))"
proof -
  have "int d smod 3600 div 60 = int (d mod 3600 div 60)"
    using smod_int_of_nat [of d 3600] by (simp add: zdiv_int)
  moreover have "int d smod 60 = int (d mod 60)" using smod_int_of_nat [of d 60] by simp
  moreover have "int d div 3600 = int (d div 3600)" by (simp add: zdiv_int)
  ultimately show ?thesis
    by (simp only: convertDurationToTimeString_def Let_def js_string_int)
qed

subsection \<open>Digits\<close>

lemma digit_char_0 [simp]: "digit_char 0 = CHR ''0''"
  by (simp add: digit_char_def char_of_def bit_simps)

lemma digit_value_digit_char [simp]: "d < 10 \<Longrightarrow> digit_value (digit_char d) = Some d"
  by (simp add: digit_value_def digit_char_def Let_def)

lemma decimal_small [simp]: "n < 10 \<Longrightarrow> decimal n = [digit_char n]"
  by (simp add: decimal.simps)

lemma decimal_two_digits:
  "10 \<le> n \<Longrightarrow> n < 100 \<Longrightarrow> decimal n = [digit_char (n div 10), digit_char (n mod 10)]"
  by (simp add: decimal.simps [of n])

lemma padStart2_decimal:
  "n < 100 \<Longrightarrow> padStart2 (decimal n) = [digit_char (n div 10), digit_char (n mod 10)]"
  by (cases "n < 10") (simp_all add: padStart2_def decimal_two_digits)

lemma length_decimal_ge_3: "100 \<le> n \<Longrightarrow> 3 \<le> length (decimal n)"
proof (induction n rule: decimal.induct)
  case (1 n)
  show ?case
  proof (cases "100 \<le> n div 10")
    case True
    with "1.IH" "1.prems" have "3 \<le> length (decimal (n div 10))" by simp
    with "1.prems" show ?thesis by (simp add: decimal.simps [of n])
  next
    case False
    with "1.prems" have "decimal (n div 10) = [digit_char (n div 10 div 10), digit_char (n div 10 mod 10)]"
      by (simp add: decimal_two_digits)
    with "1.prems" show ?thesis by (simp add: decimal.simps [of n])
  qed
qed

subsection \<open>The printed fields\<close>

lemma time_string_fields:
  assumes "d < 360000"
  shows "convertDurationToTimeString (int d) =
    [digit_char (d div 3600 div 10), digit_char (d div 3600 mod 10), CHR '':'',
     digit_char (d mod 3600 div 60 div 10), digit_char (d mod 3600 div 60 mod 10), CHR '':'',
     digit_char (d mod 60 div 10), digit_char (d mod 60 mod 10)]"
proof -
  have "d div 3600 < 100" using assms by simp
  moreover have "d mod 3600 div 60 < 100" by simp
  moreover have "d mod 60 < 100" by simp
  ultimately show ?thesis
    by (simp add: time_string_int padStart2_decimal)
qed

lemma parse2_digits [simp]:
  "n < 100 \<Longrightarrow> parse2 (digit_char (n div 10)) (digit_char (n mod 10)) = Some n"
  by (simp add: parse2_def)

lemma parse_print_time_string:
  assumes "d < 360000"
  shows "parse_time_string (convertDurationToTimeString (int d)) = Some d"
proof -
  have h: "d div 3600 < 100" using assms by simp
  have m: "d mod 3600 div 60 < 60" by simp
  have "d mod 3600 mod 60 = d mod 60" by (simp add: mod_mod_cancel)
  then have "d div 3600 * 3600 + d mod 3600 div 60 * 60 + d mod 60 = d"
    using div_mult_mod_eq [of d 3600] div_mult_mod_eq [of "d mod 3600" 60] by linarith
  with h m show ?thesis
    by (simp add: time_string_fields [OF assms])
qed


lemma length_time_string: "d < 360000 \<Longrightarrow> length (convertDurationToTimeString (int d)) = 8"
  by (simp add: time_string_fields)

lemma length_padStart2: "length (padStart2 s) = max 2 (length s)"
  by (simp add: padStart2_def)

lemma long_time_string: "360000 \<le> d \<Longrightarrow> 8 < length (convertDurationToTimeString (int d))"
proof -
  assume "360000 \<le> d"
  then have "100 \<le> d div 3600" by simp
  then have "3 \<le> length (decimal (d div 3600))" by (rule length_decimal_ge_3)
  then show ?thesis by (simp add: time_string_int length_padStart2)
qed

lemma digit_char_digit_value: "digit_value c = Some d \<Longrightarrow> digit_char d = c"
  by (auto simp: digit_value_def digit_char_def Let_def split: if_splits)
lemma digit_value_lt_10: "digit_value c = Some d \<Longrightarrow> d < 10"
  by (auto simp: digit_value_def Let_def split: if_splits)
lemma parse2_Some:
  assumes "parse2 a b = Some x"
  shows "x < 100 \<and> a = digit_char (x div 10) \<and> b = digit_char (x mod 10)"
proof -
  from assms obtain p q where p: "digit_value a = Some p" and q: "digit_value b = Some q"
    and x: "x = 10 * p + q" by (auto simp: parse2_def split: option.splits)
  have "p < 10" "q < 10" using digit_value_lt_10 [OF p] digit_value_lt_10 [OF q] .
  with x have "x < 100" "x div 10 = p" "x mod 10 = q" by auto
  with digit_char_digit_value [OF p] digit_char_digit_value [OF q] show ?thesis by simp
qed
fun_cases parse_time_string_SomeE: "parse_time_string s = Some d"
lemma print_parse_time_string:
  assumes "parse_time_string s = Some d"
  shows "convertDurationToTimeString (int d) = s"
proof -
  obtain h1 h2 c1 m1 m2 c2 s1 s2 where s: "s = [h1, h2, c1, m1, m2, c2, s1, s2]"
    using assms by (rule parse_time_string_SomeE) blast
  with assms have e: "parse_time_string [h1, h2, c1, m1, m2, c2, s1, s2] = Some d" by simp
  then obtain h m x where ph: "parse2 h1 h2 = Some h" and pm: "parse2 m1 m2 = Some m"
    and px: "parse2 s1 s2 = Some x" and lt: "m < 60" "x < 60" and d: "d = h * 3600 + m * 60 + x"
    and c: "c1 = CHR '':''" "c2 = CHR '':''"
    by (auto split: if_splits option.splits)
  note h = parse2_Some [OF ph] and m = parse2_Some [OF pm] and xx = parse2_Some [OF px]
  have dl: "d < 360000" using d h lt by simp
  have d1: "d = (x + m * 60) + h * 3600" and d2: "d = x + (m + h * 60) * 60" using d by simp_all
  have r: "x + m * 60 < 3600" using lt by simp
  have "d div 3600 = h" using d lt by simp
  moreover have "d mod 3600 div 60 = m"
  proof -
    have "d mod 3600 = x + m * 60" using r by (simp only: d1 mod_mult_self1 mod_mult_self2 mod_less)
    then show ?thesis using lt by simp
  qed
  moreover have "d mod 60 = x" using lt by (simp only: d2 mod_mult_self1 mod_mult_self2 mod_less)
  ultimately have "d div 3600 = h" "d mod 3600 div 60 = m" "d mod 60 = x" by simp_all
  with s c h m xx show ?thesis by (simp add: time_string_fields [OF dl])
qed

lemma digits_map: "map digit_char [0..<10] = ''0123456789''"
  by (simp add: upt_rec digit_char_def char_of_def bit_simps)

lemma digit_char_in: "d < 10 \<Longrightarrow> digit_char d \<in> set ''0123456789''"
proof -
  assume "d < 10"
  then have "digit_char d \<in> set (map digit_char [0..<10])" by simp
  then show ?thesis by (simp only: digits_map)
qed

lemma set_decimal: "set (decimal n) \<subseteq> digit_char ` {..<10}"
proof (induction n rule: decimal.induct)
  case (1 n)
  then show ?case by (subst decimal.simps) auto
qed

lemma set_padStart2_decimal: "set (padStart2 (decimal n)) \<subseteq> digit_char ` {..<10}"
proof -
  have "CHR ''0'' \<in> digit_char ` {..<10}" by (rule image_eqI [of _ _ 0]) simp_all
  with set_decimal [of n] show ?thesis by (auto simp: padStart2_def)
qed

lemma time_string_alphabet: "set (convertDurationToTimeString (int d)) \<subseteq> set ''0123456789:''"
proof -
  have "digit_char ` {..<10} \<subseteq> set ''0123456789:''" using digit_char_in by auto
  with set_padStart2_decimal show ?thesis
    by (auto simp: time_string_int)
qed

lemma decimal_not_Nil [simp]: "decimal n \<noteq> []"
  by (simp add: decimal.simps [of n])

lemma time_string_negative: "d < 0 \<Longrightarrow> CHR ''-'' \<in> set (convertDurationToTimeString d)"
proof -
  assume "d < 0"
  then have "d div 3600 < 0" by simp
  then have "hd (padStart2 (js_string (d div 3600))) = CHR ''-''"
    by (simp add: js_string_def padStart2_def Suc_leI length_greater_0_conv)
  moreover have "padStart2 (js_string (d div 3600)) \<noteq> []" by (simp add: padStart2_def js_string_def)
  ultimately show ?thesis
    by (auto simp: convertDurationToTimeString_def Let_def dest: hd_in_set)
qed

lemma time_string_alphabet_iff:
  "set (convertDurationToTimeString d) \<subseteq> set ''0123456789:'' \<longleftrightarrow> 0 \<le> d"
proof
  assume "set (convertDurationToTimeString d) \<subseteq> set ''0123456789:''"
  then show "0 \<le> d" using time_string_negative [of d] by (cases "d < 0") auto
next
  assume "0 \<le> d"
  then show "set (convertDurationToTimeString d) \<subseteq> set ''0123456789:''"
    using time_string_alphabet [of "nat d"] by simp
qed

end
