(* ===== verification/Audio_Element.thy ===== *)
theory Audio_Element
  imports Podcastr_Base
begin

text \<open>
  The audio-capable primitive the Player binds (spec section 6): the browser's
  \<open>HTMLAudioElement\<close>, reduced to what the Player reads, writes or listens to. It is not
  code of the repository; its operations follow the spec's capability set. The field
  \<open>metadata_loads\<close> is a ghost counter, the number of \<open>loadedmetadata\<close> signals
  of the element, against which the development states how many \<open>timeupdate\<close> listeners the Player leaves on the element.
  \<open>ended\<close> is the element's \<open>ended\<close> attribute; \<open>ended_queued\<close> records that the
  \<open>ended\<close> event of the last time playback reached the end has not been delivered yet.
\<close>

record audio_element =
  src :: string
  currentTime :: real
  paused :: bool
  ended :: bool
  ended_queued :: bool
  loop :: bool
  timeupdate_listeners :: nat
  metadata_pending :: bool
  metadata_loads :: nat

text \<open>
  React creates the element for \<open><audio src autoPlay loop>\<close>: it starts loading the
  source, and \<open>autoPlay\<close> starts playback, so the element is not paused.
\<close>

definition new_audio :: "string \<Rightarrow> bool \<Rightarrow> audio_element" where
  "new_audio u lp =
     \<lparr>src = u, currentTime = 0, paused = False, ended = False, ended_queued = False, loop = lp,
      timeupdate_listeners = 0, metadata_pending = True, metadata_loads = 0\<rparr>"

text \<open>
  Setting the \<open>src\<close> attribute to a different URL reloads the element: position 0,
  metadata pending again, the events still queued for the old source discarded, and \<open>autoPlay\<close> restarts playback. Setting it to the same URL
  does nothing (React does not even write the attribute).
\<close>

definition set_src :: "string \<Rightarrow> audio_element \<Rightarrow> audio_element" where
  [audio_defs]: "set_src u a =
     (if src a = u then a
      else a\<lparr>src := u, currentTime := 0, paused := False, ended := False, ended_queued := False,
              metadata_pending := True\<rparr>)"

text \<open>
  \<open>play()\<close> on an element whose playback has ended first seeks to the start (HTML media
  element, play steps).
\<close>

definition audio_play :: "audio_element \<Rightarrow> audio_element" where
  [audio_defs]: "audio_play a =
     a\<lparr>paused := False, ended := False, currentTime := (if ended a then 0 else currentTime a)\<rparr>"

definition audio_pause :: "audio_element \<Rightarrow> audio_element" where
  [audio_defs]: "audio_pause a = a\<lparr>paused := True\<rparr>"

definition metadata_loaded :: "audio_element \<Rightarrow> audio_element" where
  [audio_defs]: "metadata_loaded a = a\<lparr>metadata_pending := False, metadata_loads := Suc (metadata_loads a)\<rparr>"

text \<open>
  Reaching the end without \<open>loop\<close>: the element becomes paused and ended, and the
  browser queues its \<open>pause\<close> event and then its \<open>ended\<close> event. Removing a playing
  element from the document runs the pause steps: it becomes paused and a
  \<open>timeupdate\<close> task is queued for it.
\<close>

definition playback_ended :: "audio_element \<Rightarrow> audio_element" where
  [audio_defs]: "playback_ended a = a\<lparr>paused := True, ended := True, ended_queued := True\<rparr>"

definition audio_detach :: "audio_element \<Rightarrow> audio_element" where
  [audio_defs]: "audio_detach a = a\<lparr>paused := True\<rparr>"

lemma src_set_src [simp]: "src (set_src u a) = u"
  by (simp add: set_src_def)

lemma loop_set_src [simp]: "loop (set_src u a) = loop a"
  by (simp add: set_src_def)

lemma listeners_set_src [simp]: "timeupdate_listeners (set_src u a) = timeupdate_listeners a"
  by (simp add: set_src_def)

lemma metadata_loads_set_src [simp]: "metadata_loads (set_src u a) = metadata_loads a"
  by (simp add: set_src_def)

lemma set_src_same [simp]: "src a = u \<Longrightarrow> set_src u a = a"
  by (simp add: set_src_def)

end
