(* ===== verification/Player_Component.thy ===== *)
theory Player_Component
  imports Player_Context Time_String Audio_Element
begin

text \<open>
  The \<open>Player\<close> component of \<open>src/src/components/player/index.tsx\<close>: its own state
  (the \<open>progress\<close> hook and the \<open>audioRef\<close> reference, \<open>None\<close> while no
  \<open><audio>\<close> element is mounted), the \<open>isPlaying\<close> effect, the handlers
  \<open>handleSeek\<close>, \<open>setupProgressListener\<close> (with the \<open>timeupdate\<close> listener it
  registers) and \<open>handleEpisodeEnded\<close>, and the values the component derives when it
  renders: the current \<open>episode\<close>, the mounted audio element, the disabled state of each
  button and the two time labels. Reading a property of \<open>audioRef.current\<close> while it is
  \<open>null\<close> throws; those handlers return \<open>Inl TypeError\<close> then.
\<close>

record player_view =
  progress :: seconds
  audioRef :: "audio_element option"

definition initial_view :: player_view where
  "initial_view = \<lparr>progress = 0, audioRef = None\<rparr>"

datatype js_error = TypeError

definition episode :: "player_state \<Rightarrow> Episode option" where
  [render_defs]: "episode s = js_nth (episodeList s) (currentEpisodeIndex s)"

definition playing_effect :: "bool \<Rightarrow> player_view \<Rightarrow> player_view" where
  [handler_defs]: "playing_effect playing v =
     (case audioRef v of
        None \<Rightarrow> v
      | Some a \<Rightarrow> v\<lparr>audioRef := Some (if playing then audio_play a else audio_pause a)\<rparr>)"

definition handleSeek :: "seconds \<Rightarrow> player_view \<Rightarrow> js_error + player_view" where
  [handler_defs]: "handleSeek amount v =
     (case audioRef v of
        None \<Rightarrow> Inl TypeError
      | Some a \<Rightarrow> Inr (v\<lparr>audioRef := Some (a\<lparr>currentTime := real_of_int amount\<rparr>),
                         progress := amount\<rparr>))"

definition progress_listener :: "player_view \<Rightarrow> js_error + player_view" where
  [handler_defs]: "progress_listener v =
     (case audioRef v of
        None \<Rightarrow> Inl TypeError
      | Some a \<Rightarrow> Inr (v\<lparr>progress := \<lfloor>currentTime a\<rfloor>\<rparr>))"

definition setupProgressListener :: "player_view \<Rightarrow> js_error + player_view" where
  [handler_defs]: "setupProgressListener v =
     (case audioRef v of
        None \<Rightarrow> Inl TypeError
      | Some a \<Rightarrow> Inr (v\<lparr>audioRef := Some (a\<lparr>currentTime := 0,
                           timeupdate_listeners := Suc (timeupdate_listeners a)\<rparr>)\<rparr>))"

definition handleEpisodeEnded :: "real \<Rightarrow> player_state \<Rightarrow> player_state" where
  [handler_defs]: "handleEpisodeEnded rnd s =
     (if hasNext s then playNext rnd s else clearPlayerState s)"

text \<open>
  A \<open>timeupdate\<close> signal runs every listener registered on the element, in turn; all of
  them are the closure \<open>setupProgressListener\<close> registers.
\<close>

primrec fire_timeupdate :: "nat \<Rightarrow> player_view \<Rightarrow> js_error + player_view" where
  "fire_timeupdate 0 v = Inr v"
| "fire_timeupdate (Suc n) v =
     (case progress_listener v of Inl e \<Rightarrow> Inl e | Inr v' \<Rightarrow> fire_timeupdate n v')"

subsection \<open>What the component renders\<close>

text \<open>
  \<open>{episode && <audio src={episode.url} autoPlay loop={isLooping} .../>}\<close>: no element
  without an episode; a new element when one appears; otherwise the same element with
  its \<open>src\<close> and \<open>loop\<close> attributes brought up to date.
\<close>

definition render_audio :: "player_state \<Rightarrow> audio_element option \<Rightarrow> audio_element option" where
  [render_defs]: "render_audio s prev =
     (case episode s of
        None \<Rightarrow> None
      | Some ep \<Rightarrow> Some (case prev of
                          None \<Rightarrow> new_audio (url ep) (isLooping s)
                        | Some a \<Rightarrow> (set_src (url ep) a)\<lparr>loop := isLooping s\<rparr>))"

definition shuffle_disabled :: "player_state \<Rightarrow> bool" where
  [render_defs]: "shuffle_disabled s \<longleftrightarrow> episode s = None \<or> length (episodeList s) = 1"

definition previous_disabled :: "player_state \<Rightarrow> bool" where
  [render_defs]: "previous_disabled s \<longleftrightarrow> episode s = None \<or> \<not> hasPrevious s"

definition playpause_disabled :: "player_state \<Rightarrow> bool" where
  [render_defs]: "playpause_disabled s \<longleftrightarrow> episode s = None"

definition next_disabled :: "player_state \<Rightarrow> bool" where
  [render_defs]: "next_disabled s \<longleftrightarrow> episode s = None \<or> \<not> hasNext s"

definition loop_disabled :: "player_state \<Rightarrow> bool" where
  [render_defs]: "loop_disabled s \<longleftrightarrow> episode s = None"

definition slider_max :: "player_state \<Rightarrow> seconds option" where
  [render_defs]: "slider_max s = map_option duration (episode s)"
  \<comment> \<open>the Slider is rendered only with an episode, with \<open>max={episode.duration}\<close>\<close>

definition progress_label :: "player_view \<Rightarrow> string" where
  [render_defs]: "progress_label v = convertDurationToTimeString (progress v)"

definition duration_label :: "player_state \<Rightarrow> string" where
  [render_defs]: "duration_label s =
     convertDurationToTimeString (case episode s of None \<Rightarrow> 0 | Some ep \<Rightarrow> duration ep)"

lemmas time_string_eval =
  convertDurationToTimeString_def js_string_def signed_modulo_int_def padStart2_def decimal.simps
  digit_char_def char_of_def bit_simps

subsection \<open>The mounted element follows the store\<close>

lemma render_audio_None_iff: "render_audio s prev = None \<longleftrightarrow> episode s = None"
  by (auto simp: render_audio_def split: option.splits)

subsection \<open>Handlers on a mounted element\<close>

lemma progress_listener_Some:
  "audioRef v = Some a \<Longrightarrow> progress_listener v = Inr (v\<lparr>progress := \<lfloor>currentTime a\<rfloor>\<rparr>)"
  by (simp add: progress_listener_def)

lemma fire_timeupdate_Some:
  "audioRef v = Some a \<Longrightarrow> fire_timeupdate (Suc n) v = Inr (v\<lparr>progress := \<lfloor>currentTime a\<rfloor>\<rparr>)"
proof (induction n arbitrary: v)
  case 0
  then show ?case by (simp add: progress_listener_Some)
next
  case (Suc n)
  have "audioRef (v\<lparr>progress := \<lfloor>currentTime a\<rfloor>\<rparr>) = Some a" using Suc.prems by simp
  then have "fire_timeupdate (Suc n) (v\<lparr>progress := \<lfloor>currentTime a\<rfloor>\<rparr>) =
               Inr (v\<lparr>progress := \<lfloor>currentTime a\<rfloor>\<rparr>)"
    using Suc.IH by simp
  with Suc.prems show ?case by (simp add: progress_listener_Some)
qed

lemma fire_timeupdate_mounted:
  "audioRef v = Some a \<Longrightarrow>
     fire_timeupdate n v = Inr (if n = 0 then v else v\<lparr>progress := \<lfloor>currentTime a\<rfloor>\<rparr>)"
  by (cases n) (simp_all add: fire_timeupdate_Some del: fire_timeupdate.simps(2))


lemma fire_timeupdate_unmounted:
  "audioRef v = None \<Longrightarrow> fire_timeupdate n v = (if n = 0 then Inr v else Inl TypeError)"
  by (cases n) (simp_all add: progress_listener_def)

subsection \<open>The time labels\<close>

text \<open>C29: For progress between 0 and 99:59:59 the progress label has the fixed width of 8 characters and reading it back as HH:MM:SS gives the progress.\<close>

theorem progress_label_roundtrip:
  "0 \<le> progress v \<Longrightarrow> progress v < 360000 \<Longrightarrow>
     parse_time_string (progress_label v) = Some (nat (progress v)) \<and> length (progress_label v) = 8"
  using parse_print_time_string [of "nat (progress v)"] length_time_string [of "nat (progress v)"]
  by (simp add: progress_label_def)

theorem progress_label_roundtrip_witness:
  "0 \<le> progress \<lparr>progress = 50, audioRef = None\<rparr> \<and> progress \<lparr>progress = 50, audioRef = None\<rparr> < 360000 \<and>
   parse_time_string (progress_label \<lparr>progress = 50, audioRef = None\<rparr>) = Some 50"
  using progress_label_roundtrip [of "\<lparr>progress = 50, audioRef = None\<rparr>"] by simp

text \<open>C30: For an episode of 100 hours or more the duration label is longer than the 8 characters of HH:MM:SS.\<close>

theorem duration_label_overflows:
  "episode s = Some ep \<Longrightarrow> 360000 \<le> duration ep \<Longrightarrow> 8 < length (duration_label s)"
proof -
  assume "episode s = Some ep" and "360000 \<le> duration ep"
  then show ?thesis
    using long_time_string [of "nat (duration ep)"] by (simp add: duration_label_def)
qed

theorem duration_label_overflows_witness:
  "episode (play (sample_episode ''long.mp3'' 360000) initial_player_state) =
     Some (sample_episode ''long.mp3'' 360000) \<and>
   360000 \<le> duration (sample_episode ''long.mp3'' 360000) \<and>
   8 < length (duration_label (play (sample_episode ''long.mp3'' 360000) initial_player_state))"
proof -
  have h1: "episode (play (sample_episode ''long.mp3'' 360000) initial_player_state) =
     Some (sample_episode ''long.mp3'' 360000)" by (simp add: episode_def play_def)
  have h2: "360000 \<le> duration (sample_episode ''long.mp3'' 360000)" by (simp add: sample_episode_def)
  show ?thesis using h1 h2 duration_label_overflows [OF h1 h2] by blast
qed

text \<open>C31: Every string that reads back as HH:MM:SS with d seconds is exactly the progress label rendered for progress d: the formatter's output is the only spelling of its value.\<close>

theorem label_reads_back:
  assumes "parse_time_string str = Some d"
  shows "progress_label \<lparr>progress = int d, audioRef = r\<rparr> = str"
  using print_parse_time_string [OF assms] by (simp add: progress_label_def)

theorem label_reads_back_witness:
  "parse_time_string ''01:02:03'' = Some 3723 \<and>
   progress_label \<lparr>progress = int 3723, audioRef = None\<rparr> = ''01:02:03''"
proof -
  have h: "parse_time_string ''01:02:03'' = Some 3723"
    by (simp add: parse2_def digit_value_def Let_def)
  show ?thesis using h label_reads_back [OF h, of None] by blast
qed

text \<open>C32: The progress label consists only of digits and colons exactly when progress is non-negative, and the duration label exactly when the current episode's duration (0 without one) is; a negative value is printed with a minus sign.\<close>

theorem labels_digits_iff_nonnegative:
  "(set (progress_label v) \<subseteq> set ''0123456789:'' \<longleftrightarrow> 0 \<le> progress v) \<and>
   (set (duration_label s) \<subseteq> set ''0123456789:'' \<longleftrightarrow>
      (case episode s of None \<Rightarrow> True | Some ep \<Rightarrow> 0 \<le> duration ep))"
  unfolding progress_label_def duration_label_def
  by (cases "episode s") (simp_all only: time_string_alphabet_iff option.case order_refl simp_thms)

subsection \<open>Handlers without an element\<close>

text \<open>C10: Without a mounted element, handleSeek, setupProgressListener and a timeupdate listener throw TypeError (audioRef.current is null), while the isPlaying effect returns early and changes nothing.\<close>

theorem handlers_need_element:
  assumes "audioRef v = None"
  shows "handleSeek amount v = Inl TypeError \<and> setupProgressListener v = Inl TypeError \<and>
         fire_timeupdate (Suc n) v = Inl TypeError \<and> playing_effect b v = v"
  using assms by (simp add: handleSeek_def setupProgressListener_def progress_listener_def
    playing_effect_def)

theorem handlers_need_element_witness:
  "audioRef initial_view = None \<and> handleSeek 5 initial_view = Inl TypeError \<and>
   setupProgressListener initial_view = Inl TypeError"
proof -
  have h: "audioRef initial_view = None" by (simp add: initial_view_def)
  show ?thesis using h handlers_need_element [OF h, of 5 0 True] by blast
qed

end
