(* ===== verification/Player_App.thy ===== *)
theory Player_App
  imports Player_Component
begin

text \<open>
  The application of \<open>src/src/pages/_app.tsx\<close>: \<open>PlayerContextProvider\<close> wrapping the
  \<open>Player\<close>, as one event-driven system. Its state is the store, the Player's own state
  and the \<open>isPlaying\<close> value the effect saw at the last commit (its dependency array).
  Every event runs one handler and then a React commit: the Player re-renders from the
  store (mounting, updating or unmounting the \<open><audio>\<close> element) and the effect runs
  when \<open>isPlaying\<close> changed. An element React removes while it plays is paused by
  the browser, which queues a \<open>timeupdate\<close> task for it; the listeners
  \<open>setupProgressListener\<close> attached to it then still run, and they read
  \<open>audioRef.current\<close>, which React has set to null or to a newer element. These
  pending tasks are the list \<open>removed\<close>. React's own \<open>onPause\<close> prop of a removed
  element is not modelled: whether React still dispatches to an unmounted element
  depends on its version, which is not part of the sources. Events are the user's clicks on the enabled buttons, the
  slider, the pages' calls of \<open>play\<close>/\<open>playList\<close>, the mounted audio element's
  signals, the element reaching its end (\<open>ReachEnd\<close>, no handler runs) and the
  \<open>timeupdate\<close> task of a removed element;
  \<open>event_ok\<close> is the environment's side of the contract (spec section 6).
\<close>

record app_state =
  store :: player_state
  view :: player_view
  effect_isPlaying :: bool
  removed :: "audio_element list"

definition initial_app :: app_state where
  "initial_app =
     \<lparr>store = initial_player_state, view = initial_view, effect_isPlaying = False, removed = []\<rparr>"

definition removal :: "audio_element option \<Rightarrow> audio_element option \<Rightarrow> audio_element list" where
  "removal old new =
     (case (old, new) of
        (Some au, None) \<Rightarrow> if paused au then [] else [audio_detach au]
      | _ \<Rightarrow> [])"

definition commit :: "app_state \<Rightarrow> app_state" where
  "commit a =
     (let s = store a;
          r = render_audio s (audioRef (view a));
          v = (view a)\<lparr>audioRef := r\<rparr>;
          q = removed a @ removal (audioRef (view a)) r
      in if isPlaying s = effect_isPlaying a then a\<lparr>view := v, removed := q\<rparr>
         else a\<lparr>view := playing_effect (isPlaying s) v, effect_isPlaying := isPlaying s, removed := q\<rparr>)"

datatype ui_event =
    ClickShuffle
  | ClickPrevious
  | ClickPlayPause
  | ClickNext real
  | ClickLoop
  | SlideTo seconds
  | SelectEpisode Episode
  | SelectList "Episode list" js_index

datatype media_event =
    TimeUpdate real
  | LoadedMetadata
  | ReachEnd
  | Ended real
  | MediaPlay
  | MediaPause

datatype app_event = UI ui_event | Media media_event | RemovedTimeUpdate

definition store_event :: "player_call \<Rightarrow> app_state \<Rightarrow> app_state" where
  "store_event c a = commit (a\<lparr>store := player_apply c (store a)\<rparr>)"

definition view_event :: "(player_view \<Rightarrow> js_error + player_view) \<Rightarrow> app_state \<Rightarrow> js_error + app_state" where
  "view_event h a = (case h (view a) of Inl e \<Rightarrow> Inl e | Inr v \<Rightarrow> Inr (commit (a\<lparr>view := v\<rparr>)))"

fun ui_step :: "ui_event \<Rightarrow> app_state \<Rightarrow> js_error + app_state" where
  "ui_step ClickShuffle a =
     Inr (if shuffle_disabled (store a) then a else store_event ToggleShuffle a)"
| "ui_step ClickPrevious a =
     Inr (if previous_disabled (store a) then a else store_event PlayPrevious a)"
| "ui_step ClickPlayPause a =
     Inr (if playpause_disabled (store a) then a else store_event TogglePlay a)"
| "ui_step (ClickNext rnd) a =
     Inr (if next_disabled (store a) then a else store_event (PlayNext rnd) a)"
| "ui_step ClickLoop a =
     Inr (if loop_disabled (store a) then a else store_event ToggleLoop a)"
| "ui_step (SlideTo amount) a =
     (if slider_max (store a) = None then Inr a else view_event (handleSeek amount) a)"
| "ui_step (SelectEpisode ep) a = Inr (store_event (Play ep) a)"
| "ui_step (SelectList list index) a = Inr (store_event (PlayList list index) a)"

fun media_step :: "media_event \<Rightarrow> app_state \<Rightarrow> js_error + app_state" where
  "media_step (TimeUpdate t) a =
     (case audioRef (view a) of
        None \<Rightarrow> Inr a
      | Some au \<Rightarrow> view_event (fire_timeupdate (timeupdate_listeners au))
                     (a\<lparr>view := (view a)\<lparr>audioRef := Some (au\<lparr>currentTime := t\<rparr>)\<rparr>\<rparr>))"
| "media_step LoadedMetadata a =
     (case audioRef (view a) of
        None \<Rightarrow> Inr a
      | Some au \<Rightarrow> view_event setupProgressListener
                     (a\<lparr>view := (view a)\<lparr>audioRef := Some (metadata_loaded au)\<rparr>\<rparr>))"
| "media_step ReachEnd a =
     (case audioRef (view a) of
        None \<Rightarrow> Inr a
      | Some au \<Rightarrow> Inr (a\<lparr>view := (view a)\<lparr>audioRef := Some (playback_ended au)\<rparr>\<rparr>))"
| "media_step (Ended rnd) a =
     (case audioRef (view a) of
        None \<Rightarrow> Inr a
      | Some au \<Rightarrow> Inr (commit (a\<lparr>store := handleEpisodeEnded rnd (store a),
                                 view := (view a)\<lparr>audioRef := Some (au\<lparr>ended_queued := False\<rparr>)\<rparr>\<rparr>)))"
| "media_step MediaPlay a =
     (case audioRef (view a) of None \<Rightarrow> Inr a | Some au \<Rightarrow> Inr (store_event (SetPlayingState True) a))"
| "media_step MediaPause a =
     (case audioRef (view a) of None \<Rightarrow> Inr a | Some au \<Rightarrow> Inr (store_event (SetPlayingState False) a))"

fun app_step :: "app_event \<Rightarrow> app_state \<Rightarrow> js_error + app_state" where
  "app_step (UI e) a = ui_step e a"
| "app_step (Media e) a = media_step e a"
| "app_step RemovedTimeUpdate a =
     (case removed a of
        [] \<Rightarrow> Inr a
      | au # rest \<Rightarrow> view_event (fire_timeupdate (timeupdate_listeners au)) (a\<lparr>removed := rest\<rparr>))"

text \<open>
  What the environment delivers: \<open>Math.random()\<close> in \<open>[0, 1)\<close>; slider values
  between 0 and the episode's duration; \<open>playList\<close> indices of the list; signals only
  from a mounted element, \<open>loadedmetadata\<close> once per load, the end reached only by a
  playing element that does not loop, \<open>ended\<close> once after it, \<open>play\<close>/\<open>pause\<close>
  matching its state; a removed element's \<open>timeupdate\<close> only while one is queued.
\<close>

fun media_ok :: "audio_element \<Rightarrow> media_event \<Rightarrow> bool" where
  "media_ok au (TimeUpdate t) \<longleftrightarrow> 0 \<le> t"
| "media_ok au LoadedMetadata \<longleftrightarrow> metadata_pending au"
| "media_ok au ReachEnd \<longleftrightarrow> \<not> loop au \<and> \<not> paused au"
| "media_ok au (Ended rnd) \<longleftrightarrow> ended_queued au \<and> 0 \<le> rnd \<and> rnd < 1"
| "media_ok au MediaPlay \<longleftrightarrow> \<not> paused au"
| "media_ok au MediaPause \<longleftrightarrow> paused au"

fun event_ok :: "app_state \<Rightarrow> app_event \<Rightarrow> bool" where
  "event_ok a (UI (ClickNext rnd)) \<longleftrightarrow> 0 \<le> rnd \<and> rnd < 1"
| "event_ok a (UI (SlideTo amount)) \<longleftrightarrow>
     (case slider_max (store a) of None \<Rightarrow> True | Some m \<Rightarrow> 0 \<le> amount \<and> amount \<le> m)"
| "event_ok a (UI (SelectList list index)) \<longleftrightarrow> call_ok (PlayList list index)"
| "event_ok a (UI _) \<longleftrightarrow> True"
| "event_ok a (Media e) \<longleftrightarrow> (case audioRef (view a) of None \<Rightarrow> False | Some au \<Rightarrow> media_ok au e)"
| "event_ok a RemovedTimeUpdate \<longleftrightarrow> removed a \<noteq> []"

inductive app_reachable :: "app_state \<Rightarrow> bool" where
  init: "app_reachable initial_app"
| step: "app_reachable a \<Longrightarrow> event_ok a e \<Longrightarrow> app_step e a = Inr a' \<Longrightarrow> app_reachable a'"

text \<open>
  The invariant of the composed system: the store's index invariant; the effect has seen
  the current \<open>isPlaying\<close>; progress and the element's position are non-negative; an
  element is mounted exactly when there is an episode, plays that episode's URL, loops
  as the store says, carries one \<open>timeupdate\<close> listener per \<open>loadedmetadata\<close>, and
  is paused whenever its playback has ended.
\<close>

definition audio_ok :: "audio_element \<Rightarrow> bool" where
  "audio_ok au \<longleftrightarrow>
     0 \<le> currentTime au \<and> timeupdate_listeners au = metadata_loads au \<and> (ended au \<longrightarrow> paused au)"

definition app_inv :: "app_state \<Rightarrow> bool" where
  "app_inv a \<longleftrightarrow>
     index_ok (store a) \<and> effect_isPlaying a = isPlaying (store a) \<and> 0 \<le> progress (view a) \<and>
     (case audioRef (view a) of
        None \<Rightarrow> episode (store a) = None
      | Some au \<Rightarrow> map_option url (episode (store a)) = Some (src au) \<and>
                   loop au = isLooping (store a) \<and> audio_ok au)"

definition reconciled :: "app_state \<Rightarrow> bool" where
  "reconciled a \<longleftrightarrow>
     (case audioRef (view a) of None \<Rightarrow> True | Some au \<Rightarrow> paused au = (\<not> isPlaying (store a)))"


subsection \<open>The primitive's commands keep what the invariant reads\<close>

lemma audio_cmd_fields [simp]:
  "src (audio_play au) = src au" "loop (audio_play au) = loop au" "paused (audio_play au) = False"
  "src (audio_pause au) = src au" "loop (audio_pause au) = loop au" "paused (audio_pause au) = True"
  by (simp_all add: audio_play_def audio_pause_def)

lemma audio_ok_cmds [simp]:
  "audio_ok au \<Longrightarrow> audio_ok (audio_play au)" "audio_ok au \<Longrightarrow> audio_ok (audio_pause au)"
  by (simp_all add: audio_play_def audio_pause_def audio_ok_def)

lemma removal_same [simp]: "removal x x = []"
  by (cases x) (simp_all add: removal_def)

lemma removal_simps [simp]:
  "removal None r = []" "removal old (Some au) = []"
  "removal (Some au) None = (if paused au then [] else [audio_detach au])"
  by (simp_all add: removal_def split: option.split)

lemma render_audio_ok:
  "(\<forall>au. prev = Some au \<longrightarrow> audio_ok au) \<Longrightarrow> render_audio s prev = Some au' \<Longrightarrow> audio_ok au'"
  by (auto simp: render_audio_def new_audio_def set_src_def audio_ok_def split: option.splits if_splits)

lemma render_audio_src_loop:
  "render_audio s prev = Some au' \<Longrightarrow>
     map_option url (episode s) = Some (src au') \<and> loop au' = isLooping s"
  by (auto simp: render_audio_def new_audio_def split: option.splits)

subsection \<open>A commit\<close>

lemma commit_fields [simp]:
  "store (commit a) = store a"
  "progress (view (commit a)) = progress (view a)"
  "effect_isPlaying (commit a) = isPlaying (store a)"
  by (simp_all add: commit_def Let_def playing_effect_def split: option.splits)

lemma audioRef_commit:
  "audioRef (view (commit a)) =
     map_option (\<lambda>au. if isPlaying (store a) = effect_isPlaying a then au
                      else if isPlaying (store a) then audio_play au else audio_pause au)
       (render_audio (store a) (audioRef (view a)))"
  by (cases "render_audio (store a) (audioRef (view a))")
     (simp_all add: commit_def Let_def playing_effect_def)

lemma commit_app_inv:
  assumes "index_ok (store a)" and "0 \<le> progress (view a)"
    and "\<forall>au. audioRef (view a) = Some au \<longrightarrow> audio_ok au"
  shows "app_inv (commit a)"
proof (cases "render_audio (store a) (audioRef (view a))")
  case None
  then have "episode (store a) = None" by (simp add: render_audio_None_iff)
  with None show ?thesis using assms by (simp add: app_inv_def audioRef_commit)
next
  case (Some au)
  have "audio_ok au" using render_audio_ok [OF assms(3) Some] .
  moreover have "map_option url (episode (store a)) = Some (src au) \<and> loop au = isLooping (store a)"
    using render_audio_src_loop [OF Some] .
  ultimately show ?thesis using assms Some by (simp add: app_inv_def audioRef_commit)
qed

lemma app_inv_audio_ok: "app_inv a \<Longrightarrow> audioRef (view a) = Some au \<Longrightarrow> audio_ok au"
  by (simp add: app_inv_def)

lemma app_inv_commit_id: "app_inv a \<Longrightarrow> commit a = a"
proof -
  assume inv: "app_inv a"
  have "render_audio (store a) (audioRef (view a)) = audioRef (view a)"
  proof (cases "audioRef (view a)")
    case None
    with inv show ?thesis by (simp add: app_inv_def render_audio_def)
  next
    case (Some au)
    with inv obtain ep where "episode (store a) = Some ep" "src au = url ep"
      "loop au = isLooping (store a)"
      by (auto simp: app_inv_def)
    with Some show ?thesis by (simp add: render_audio_def)
  qed
  with inv show ?thesis by (simp add: commit_def Let_def app_inv_def)
qed

subsection \<open>Each kind of event keeps the invariant\<close>

lemma store_event_app_inv:
  "app_inv a \<Longrightarrow> call_ok c \<Longrightarrow> app_inv (store_event c a)"
  unfolding store_event_def
  by (rule commit_app_inv) (auto simp: app_inv_def player_apply_index_ok)

lemma handleEpisodeEnded_index_ok:
  "index_ok s \<Longrightarrow> 0 \<le> rnd \<Longrightarrow> rnd < 1 \<Longrightarrow> index_ok (handleEpisodeEnded rnd s)"
  using player_apply_index_ok [of s "PlayNext rnd"] player_apply_index_ok [of s ClearPlayerState]
  by (simp add: handleEpisodeEnded_def)

lemma fire_timeupdate_cases:
  "fire_timeupdate n v = Inr v' \<Longrightarrow> audioRef v = Some au \<Longrightarrow>
     audioRef v' = Some au \<and> (progress v' = progress v \<or> progress v' = \<lfloor>currentTime au\<rfloor>)"
proof (cases n)
  case 0
  then show "fire_timeupdate n v = Inr v' \<Longrightarrow> audioRef v = Some au \<Longrightarrow> ?thesis" by simp
next
  case (Suc m)
  then show "fire_timeupdate n v = Inr v' \<Longrightarrow> audioRef v = Some au \<Longrightarrow> ?thesis"
    using fire_timeupdate_Some [of v au m] by simp
qed

lemma ui_step_app_inv:
  assumes inv: "app_inv a" and ok: "event_ok a (UI e)" and st: "ui_step e a = Inr a'"
  shows "app_inv a'"
proof (cases e)
  case (SlideTo amount)
  show ?thesis
  proof (cases "slider_max (store a)")
    case None
    with st SlideTo inv show ?thesis by simp
  next
    case (Some m)
    with ok SlideTo have am: "0 \<le> amount" by simp
    from Some inv obtain au where au: "audioRef (view a) = Some au" "audio_ok au"
      by (auto simp: app_inv_def slider_max_def split: option.splits)
    with st SlideTo Some have "a' = commit (a\<lparr>view := (view a)\<lparr>audioRef := Some (au\<lparr>currentTime := real_of_int amount\<rparr>), progress := amount\<rparr>\<rparr>)"
      by (simp add: view_event_def handleSeek_def)
    moreover have "app_inv (commit (a\<lparr>view := (view a)\<lparr>audioRef := Some (au\<lparr>currentTime := real_of_int amount\<rparr>), progress := amount\<rparr>\<rparr>))"
      by (rule commit_app_inv) (use inv au am in \<open>auto simp: app_inv_def audio_ok_def\<close>)
    ultimately show ?thesis by simp
  qed
qed (use inv ok st in \<open>auto intro: store_event_app_inv split: if_splits\<close>)

lemma media_step_app_inv:
  assumes inv: "app_inv a" and ok: "event_ok a (Media e)" and st: "media_step e a = Inr a'"
  shows "app_inv a'"
proof -
  from ok obtain au where au: "audioRef (view a) = Some au" and mok: "media_ok au e"
    by (auto split: option.splits)
  have aok: "audio_ok au" using app_inv_audio_ok [OF inv au] .
  have ix: "index_ok (store a)" and pr: "0 \<le> progress (view a)" using inv by (auto simp: app_inv_def)
  show ?thesis
  proof (cases e)
    case (TimeUpdate t)
    let ?v = "(view a)\<lparr>audioRef := Some (au\<lparr>currentTime := t\<rparr>)\<rparr>"
    from st TimeUpdate au obtain v' where
      f: "fire_timeupdate (timeupdate_listeners au) ?v = Inr v'" and a': "a' = commit (a\<lparr>view := v'\<rparr>)"
      by (auto simp: view_event_def split: sum.splits)
    from fire_timeupdate_cases [OF f] have
      "audioRef v' = Some (au\<lparr>currentTime := t\<rparr>) \<and> (progress v' = progress (view a) \<or> progress v' = \<lfloor>t\<rfloor>)"
      by simp
    with a' ix pr aok mok TimeUpdate show ?thesis
      by (auto intro!: commit_app_inv simp: audio_ok_def)
  next
    case LoadedMetadata
    with st au have "a' = commit (a\<lparr>view := (view a)\<lparr>audioRef := Some ((metadata_loaded au)\<lparr>currentTime := 0,
        timeupdate_listeners := Suc (timeupdate_listeners (metadata_loaded au))\<rparr>)\<rparr>\<rparr>)"
      by (simp add: view_event_def setupProgressListener_def)
    with ix pr aok show ?thesis
      by (simp add: commit_app_inv audio_ok_def metadata_loaded_def)
  next
    case ReachEnd
    with st au have "a' = a\<lparr>view := (view a)\<lparr>audioRef := Some (playback_ended au)\<rparr>\<rparr>" by simp
    with inv au aok show ?thesis by (simp add: app_inv_def audio_ok_def playback_ended_def)
  next
    case (Ended rnd)
    with st au have a': "a' = commit (a\<lparr>store := handleEpisodeEnded rnd (store a),
                                 view := (view a)\<lparr>audioRef := Some (au\<lparr>ended_queued := False\<rparr>)\<rparr>\<rparr>)"
      by simp
    from mok Ended have "0 \<le> rnd" "rnd < 1" by auto
    with a' ix pr aok show ?thesis
      by (simp add: commit_app_inv handleEpisodeEnded_index_ok audio_ok_def)
  next
    case MediaPlay
    with st au inv show ?thesis by (auto intro: store_event_app_inv)
  next
    case MediaPause
    with st au inv show ?thesis by (auto intro: store_event_app_inv)
  qed
qed

lemma removed_step_app_inv:
  assumes inv: "app_inv a" and st: "app_step RemovedTimeUpdate a = Inr a'"
  shows "app_inv a'"
proof (cases "removed a")
  case Nil
  with st inv show ?thesis by simp
next
  case (Cons au rest)
  with st obtain v' where f: "fire_timeupdate (timeupdate_listeners au) (view a) = Inr v'"
    and a': "a' = commit (a\<lparr>removed := rest, view := v'\<rparr>)"
    by (auto simp: view_event_def split: sum.splits)
  have ix: "index_ok (store a)" and pr: "0 \<le> progress (view a)" using inv by (auto simp: app_inv_def)
  show ?thesis
  proof (cases "audioRef (view a)")
    case None
    with f have "v' = view a" by (simp add: fire_timeupdate_unmounted split: if_splits)
    with a' ix pr None show ?thesis by (simp add: commit_app_inv)
  next
    case (Some au')
    have aok: "audio_ok au'" using app_inv_audio_ok [OF inv Some] .
    from fire_timeupdate_cases [OF f Some] aok have
      "audioRef v' = Some au' \<and> 0 \<le> progress v'" using pr by (auto simp: audio_ok_def)
    with a' ix aok show ?thesis by (simp add: commit_app_inv)
  qed
qed

lemma app_step_app_inv:
  "app_inv a \<Longrightarrow> event_ok a e \<Longrightarrow> app_step e a = Inr a' \<Longrightarrow> app_inv a'"
  by (cases e) (auto intro: ui_step_app_inv media_step_app_inv removed_step_app_inv)

lemma app_inv_initial: "app_inv initial_app"
  by (simp add: app_inv_def initial_app_def initial_player_state_def initial_view_def index_ok_def episode_def)

lemma app_reachable_app_inv: "app_reachable a \<Longrightarrow> app_inv a"
proof (induction rule: app_reachable.induct)
  case init
  show ?case by (rule app_inv_initial)
next
  case (step a e a')
  then show ?case by (blast intro: app_step_app_inv)
qed


subsection \<open>Commits that change nothing the element depends on\<close>

lemma render_audio_stable:
  assumes "app_inv a" and "episode s = episode (store a)" and "isLooping s = isLooping (store a)"
  shows "render_audio s (audioRef (view a)) = audioRef (view a)"
proof (cases "audioRef (view a)")
  case None
  with assms show ?thesis by (simp add: app_inv_def render_audio_def)
next
  case (Some au)
  with assms(1) obtain ep where "episode (store a) = Some ep" "src au = url ep"
    "loop au = isLooping (store a)"
    by (auto simp: app_inv_def)
  with Some assms(2,3) show ?thesis by (simp add: render_audio_def)
qed

lemma store_event_playing:
  assumes "app_inv a" and "audioRef (view a) = Some au"
  shows "store_event (SetPlayingState b) a =
           (if b = isPlaying (store a) then a
            else a\<lparr>store := setPlayingState b (store a),
                   view := (view a)\<lparr>audioRef := Some (if b then audio_play au else audio_pause au)\<rparr>,
                   effect_isPlaying := b\<rparr>)"
proof -
  let ?a = "a\<lparr>store := setPlayingState b (store a)\<rparr>"
  have r: "render_audio (store ?a) (audioRef (view ?a)) = audioRef (view a)"
    using render_audio_stable [OF assms(1), of "setPlayingState b (store a)"]
    by (simp add: setPlayingState_def episode_def)
  show ?thesis
  proof (cases "b = isPlaying (store a)")
    case True
    then have "?a = a" by (simp add: setPlayingState_def)
    with True assms(1) show ?thesis by (simp add: store_event_def app_inv_commit_id)
  next
    case False
    with assms r show ?thesis
      by (simp add: store_event_def commit_def Let_def playing_effect_def app_inv_def setPlayingState_def)
  qed
qed

lemma app_inv_mounted:
  "app_inv a \<Longrightarrow> episode (store a) \<noteq> None \<Longrightarrow> \<exists>au. audioRef (view a) = Some au"
  by (auto simp: app_inv_def split: option.splits)

lemma episode_mounted:
  "app_inv a \<Longrightarrow> audioRef (view a) = Some au \<Longrightarrow> \<exists>ep. episode (store a) = Some ep \<and> src au = url ep"
  by (auto simp: app_inv_def)


lemma store_event_TogglePlay:
  "store_event TogglePlay a = store_event (SetPlayingState (\<not> isPlaying (store a))) a"
  by (simp add: store_event_def togglePlay_def setPlayingState_def)

lemma handleEpisodeEnded_isPlaying [simp]:
  "isPlaying (handleEpisodeEnded rnd s) = isPlaying s"
  by (simp add: handleEpisodeEnded_def playNext_def clearPlayerState_def)

lemma ended_step:
  assumes "app_inv a" and "audioRef (view a) = Some au"
  shows "media_step (Ended rnd) a =
           Inr (commit (a\<lparr>store := handleEpisodeEnded rnd (store a),
                          view := (view a)\<lparr>audioRef := Some (au\<lparr>ended_queued := False\<rparr>)\<rparr>\<rparr>)) \<and>
         audioRef (view (commit (a\<lparr>store := handleEpisodeEnded rnd (store a),
                          view := (view a)\<lparr>audioRef := Some (au\<lparr>ended_queued := False\<rparr>)\<rparr>\<rparr>))) =
           render_audio (handleEpisodeEnded rnd (store a)) (Some (au\<lparr>ended_queued := False\<rparr>))"
  using assms by (simp add: audioRef_commit app_inv_def option.map_ident)

subsection \<open>Every accepted event has a result\<close>

lemma app_inv_step_total:
  assumes inv: "app_inv a" and ok: "event_ok a e" and nr: "e \<noteq> RemovedTimeUpdate"
  shows "\<exists>a'. app_step e a = Inr a'"
proof (cases e)
  case RemovedTimeUpdate
  with nr show ?thesis by simp
next
  case (UI u)
  show ?thesis
  proof (cases u)
    case (SlideTo amount)
    show ?thesis
    proof (cases "slider_max (store a)")
      case None
      with UI SlideTo show ?thesis by simp
    next
      case (Some m)
      then have "episode (store a) \<noteq> None" by (auto simp: slider_max_def)
      with inv obtain au where "audioRef (view a) = Some au" using app_inv_mounted by blast
      with UI SlideTo Some show ?thesis by (simp add: view_event_def handleSeek_def)
    qed
  qed (use UI in simp_all)
next
  case (Media m)
  with ok obtain au where au: "audioRef (view a) = Some au"
    by (auto split: option.splits)
  show ?thesis
  proof (cases m)
    case (TimeUpdate t)
    let ?v = "(view a)\<lparr>audioRef := Some (au\<lparr>currentTime := t\<rparr>)\<rparr>"
    have "\<exists>v'. fire_timeupdate (timeupdate_listeners au) ?v = Inr v'"
      by (simp add: fire_timeupdate_mounted)
    with Media TimeUpdate au show ?thesis by (auto simp: view_event_def)
  next
    case LoadedMetadata
    with Media au show ?thesis by (simp add: view_event_def setupProgressListener_def)
  qed (use Media au in simp_all)
qed

subsection \<open>The loop toggle as a commit\<close>

lemma store_event_ToggleLoop:
  assumes "app_inv a"
  shows "store_event ToggleLoop a =
           a\<lparr>store := toggleLoop (store a),
             view := (view a)\<lparr>audioRef := map_option (\<lambda>au. au\<lparr>loop := \<not> loop au\<rparr>) (audioRef (view a))\<rparr>\<rparr>"
proof (cases "audioRef (view a)")
  case None
  with assms have "episode (toggleLoop (store a)) = None"
    by (simp add: app_inv_def toggleLoop_def episode_def)
  with None assms show ?thesis
    by (simp add: store_event_def commit_def Let_def app_inv_def render_audio_def toggleLoop_def)
next
  case (Some au)
  with assms obtain ep where "episode (store a) = Some ep" "src au = url ep"
    "loop au = isLooping (store a)"
    by (auto simp: app_inv_def)
  with Some assms show ?thesis
    by (simp add: store_event_def commit_def Let_def app_inv_def render_audio_def toggleLoop_def
      episode_def)
qed

text \<open>The facts that evaluate a run of the application on concrete events.\<close>

lemmas app_eval =
  store_event_def view_event_def commit_def Let_def render_audio_def
  episode_def js_nth_def initial_app_def initial_player_state_def initial_view_def new_audio_def
  audio_defs store_defs handler_defs

end
