(* ===== verification/Player_Screen.thy ===== *)
theory Player_Screen
  imports Player_Component
begin

text \<open>
  What the \<open>Player\<close> of \<open>src/src/components/player/index.tsx\<close> returns from its render
  (lines 70-170), as a value: the heading, the episode panel or the placeholder, the
  footer's empty style, the two time labels around the slider or its empty stand-in,
  the \<open><audio>\<close> element's attributes, and the five buttons with their \<open>disabled\<close> and
  \<open>isActive\<close> attributes and the play button's icon. Markup, styles and images that
  depend on nothing are left out; every attribute that reads the store or the
  Player's state is a field.
\<close>

datatype episode_panel =
    CurrentEpisode (panel_thumbnail: string) (panel_title: string) (panel_members: string)
  | EmptyPlayer string

datatype slider_view = SliderView (slider_max_of: seconds) (slider_value: seconds) | EmptySlider

datatype play_icon = PauseIcon | PlayIcon

record control =
  disabled :: bool
  active :: bool

record player_screen =
  heading :: string
  panel :: episode_panel
  footer_empty :: bool
  elapsed_text :: string
  slider :: slider_view
  total_text :: string
  audio_attrs :: "(string \<times> bool) option"
  shuffle_button :: control
  previous_button :: control
  playpause_button :: control
  next_button :: control
  loop_button :: control
  playpause_icon :: play_icon

definition render_player :: "player_state \<Rightarrow> player_view \<Rightarrow> player_screen" where
  [render_defs]: "render_player s v =
     \<lparr>heading = ''Tocando agora'',
      panel = (case episode s of
                 Some ep \<Rightarrow> CurrentEpisode (thumbnail ep) (title ep) (members ep)
               | None \<Rightarrow> EmptyPlayer ''Selecione um podcast para ouvir!''),
      footer_empty = (episode s = None),
      elapsed_text = progress_label v,
      slider = (case episode s of
                  Some ep \<Rightarrow> SliderView (duration ep) (progress v)
                | None \<Rightarrow> EmptySlider),
      total_text = duration_label s,
      audio_attrs = map_option (\<lambda>ep. (url ep, isLooping s)) (episode s),
      shuffle_button = \<lparr>disabled = shuffle_disabled s, active = isShuffling s\<rparr>,
      previous_button = \<lparr>disabled = previous_disabled s, active = False\<rparr>,
      playpause_button = \<lparr>disabled = playpause_disabled s, active = False\<rparr>,
      next_button = \<lparr>disabled = next_disabled s, active = False\<rparr>,
      loop_button = \<lparr>disabled = loop_disabled s, active = isLooping s\<rparr>,
      playpause_icon = (if isPlaying s then PauseIcon else PlayIcon)\<rparr>"

definition controls :: "player_screen \<Rightarrow> control list" where
  "controls scr = [shuffle_button scr, previous_button scr, playpause_button scr,
                   next_button scr, loop_button scr]"

fun is_placeholder :: "episode_panel \<Rightarrow> bool" where
  "is_placeholder (EmptyPlayer _) = True"
| "is_placeholder (CurrentEpisode _ _ _) = False"

subsection \<open>The screen reads the current episode once\<close>

lemma render_player_no_episode:
  "episode s = None \<Longrightarrow>
     panel (render_player s v) = EmptyPlayer ''Selecione um podcast para ouvir!'' \<and>
     slider (render_player s v) = EmptySlider \<and> audio_attrs (render_player s v) = None \<and>
     list_all disabled (controls (render_player s v))"
  by (simp add: render_player_def controls_def shuffle_disabled_def previous_disabled_def
    playpause_disabled_def next_disabled_def loop_disabled_def)

lemma render_player_episode:
  "episode s = Some ep \<Longrightarrow>
     panel (render_player s v) = CurrentEpisode (thumbnail ep) (title ep) (members ep) \<and>
     slider (render_player s v) = SliderView (duration ep) (progress v) \<and>
     audio_attrs (render_player s v) = Some (url ep, isLooping s) \<and>
     \<not> disabled (playpause_button (render_player s v))"
  by (simp add: render_player_def playpause_disabled_def)

text \<open>C12: The player shows its placeholder exactly when the slider is replaced by its empty stand-in and all five buttons are disabled.\<close>

theorem placeholder_iff_all_disabled:
  "is_placeholder (panel (render_player s v)) \<longleftrightarrow>
     slider (render_player s v) = EmptySlider \<and> list_all disabled (controls (render_player s v))"
proof (cases "episode s")
  case None
  then show ?thesis using render_player_no_episode [OF None, of v] by simp
next
  case (Some ep)
  then show ?thesis using render_player_episode [OF Some, of v] by (simp add: controls_def)
qed

text \<open>C11: playList with an index outside its list is accepted silently: there is no current episode, the player renders the placeholder with every control disabled and no element, yet isPlaying is true and the play button shows the pause icon.\<close>

theorem playList_out_of_range_renders_placeholder:
  assumes "\<not> (0 \<le> i \<and> i < int (length list))"
  shows "isPlaying (playList list i s) \<and>
         panel (render_player (playList list i s) v) = EmptyPlayer ''Selecione um podcast para ouvir!'' \<and>
         list_all disabled (controls (render_player (playList list i s) v)) \<and>
         audio_attrs (render_player (playList list i s) v) = None \<and>
         playpause_icon (render_player (playList list i s) v) = PauseIcon"
proof -
  have n: "episode (playList list i s) = None"
    using assms by (auto simp: episode_def playList_def js_nth_def)
  have "isPlaying (playList list i s) \<and>
        playpause_icon (render_player (playList list i s) v) = PauseIcon"
    by (simp add: render_player_def playList_def)
  with render_player_no_episode [OF n, of v] show ?thesis by simp
qed

theorem playList_out_of_range_renders_placeholder_witness:
  "\<not> (0 \<le> (3::int) \<and> 3 < int (length sample_queue)) \<and>
   isPlaying (playList sample_queue 3 initial_player_state) \<and>
   playpause_icon (render_player (playList sample_queue 3 initial_player_state) initial_view) = PauseIcon"
proof -
  have h: "\<not> (0 \<le> (3::int) \<and> 3 < int (length sample_queue))" by (simp add: sample_queue_def)
  show ?thesis
    using h playList_out_of_range_renders_placeholder [OF h, of initial_player_state initial_view]
    by blast
qed

end
