(* ===== verification/Spec2Isabelle.thy ===== *)
theory Spec2Isabelle
  imports Player_App Player_Screen
begin

text \<open>
  \<^bold>\<open>A verification development of the Podcastr player core.\<close>

  \<^emph>\<open>The program.\<close> Two parts of \<open>src/src\<close> make up the core. The playback store
  \<open>contexts/playerContext.tsx\<close> (\<open>PlayerContextProvider\<close>) holds the queue
  \<open>episodeList\<close>, \<open>currentEpisodeIndex\<close> and the flags \<open>isPlaying\<close>,
  \<open>isLooping\<close>, \<open>isShuffling\<close>, and exposes \<open>play\<close>, \<open>playList\<close>,
  \<open>playNext\<close>, \<open>playPrevious\<close>, the three toggles, \<open>setPlayingState\<close> and
  \<open>clearPlayerState\<close>. The \<open>Player\<close> of \<open>components/player/index.tsx\<close> reads the
  store, renders an \<open><audio>\<close> element for the current episode, drives it from an
  effect on \<open>isPlaying\<close>, and feeds its signals back: \<open>loadedmetadata\<close> installs a
  \<open>timeupdate\<close> listener that updates \<open>progress\<close>, \<open>ended\<close> advances or clears the
  store, \<open>play\<close>/\<open>pause\<close> call \<open>setPlayingState\<close>. \<open>pages/_app.tsx\<close> wraps the
  Player in the provider.

  \<^emph>\<open>The theories.\<close>
  \<^item> \<open>Podcastr_Base\<close>: the named collections \<open>store_defs\<close>, \<open>handler_defs\<close>,
    \<open>render_defs\<close>, \<open>audio_defs\<close>; JavaScript's array read \<open>js_nth\<close> (out of range
    is \<open>None\<close>, never an error); the bounds of \<open>Math.floor(r * n)\<close>.
  \<^item> \<open>Queue_Cursor\<close>: the abstract specification of a play queue, a list zipper with
    forward and backward moves that keep the queue.
  \<^item> \<open>Player_Context\<close>: the store as the record \<open>player_state\<close>, one definition per
    context function (React batches the setters of one handler, so each returns the final
    record), \<open>Math.random()\<close> as the real argument of \<open>playNext\<close>, the interface as
    the datatype \<open>player_call\<close> with \<open>player_apply\<close>, the reachable states
    \<open>store_reachable\<close>, and the abstraction \<open>store_cursor\<close> to the cursor.
  \<^item> \<open>Time_String\<close>: \<open>convertDurationToTimeString\<close>, whose file is not under
    \<open>src/\<close>, modelled from the spec's \<open>HH:MM:SS\<close> on integer seconds, with a reader
    for round trips.
  \<^item> \<open>Audio_Element\<close>: the browser primitive as the spec's capability set (not code
    of the repository): \<open>src\<close>, \<open>currentTime\<close>, \<open>paused\<close>, \<open>ended\<close> and its
    queued \<open>ended\<close> event, \<open>loop\<close>, the listener count, the pending-metadata flag
    and a ghost count of \<open>loadedmetadata\<close> signals.
  \<^item> \<open>Player_Component\<close>: the Player's \<open>progress\<close> and \<open>audioRef\<close> as
    \<open>player_view\<close>; \<open>playing_effect\<close>, \<open>handleSeek\<close>, \<open>setupProgressListener\<close>,
    \<open>progress_listener\<close>, \<open>handleEpisodeEnded\<close>; the rendered \<open>episode\<close>,
    \<open>render_audio\<close>, the disabled state of each button and the two labels. A read of
    \<open>audioRef.current\<close> while it is null is \<open>Inl TypeError\<close>.
  \<^item> \<open>Player_App\<close>: the application as a system: \<open>app_state\<close> (store, view, the
    \<open>isPlaying\<close> the effect last saw, and the \<open>timeupdate\<close> tasks the browser queued
    for elements React removed while they played), \<open>commit\<close> (re-render, recording such
    a removal by \<open>removal\<close>, then the effect if its dependency changed), user and
    media events, the element reaching its end, the removed element's
    \<open>timeupdate\<close>, \<open>app_step\<close> with its error results, the environment's contract
    \<open>event_ok\<close>, the reachable states \<open>app_reachable\<close> and the invariant
    \<open>app_inv\<close>, proved by rule induction.
  \<^item> \<open>Player_Screen\<close>: the element tree the Player returns (index.tsx lines
    70-170) as the value \<open>render_player\<close>: panel or placeholder, labels, slider, the
    element's attributes, the five buttons' \<open>disabled\<close>/\<open>isActive\<close> and the icon.
  \<^item> This theory: the properties that span the store, the Player and the element.

  \<^emph>\<open>What is shown.\<close> The store keeps its index in range (C1); non-shuffling
  navigation refines the cursor (C6, C7); shuffle picks exactly the valid indices (C15);
  the no-op, reset, toggle and frame facts of the spec's section 8 (C23 to C28). For the
  whole application: the element follows the store (C2) and the screen shows
  \<open>episodeList[currentEpisodeIndex]\<close>, the episode the element plays (C9); a handler
  throws exactly when a removed element's listener reads the null ref (C3), which a
  reachable run makes happen (C8), while every handler would throw on an unmounted
  element (C10); the end-of-track policy (C4, C5); play/pause reconciliation and the
  echo of the effect's own command (C16 to C18); the loop click (C14); the seek (C22);
  progress from \<open>timeupdate\<close> (C21) and its staleness across a change of episode
  (C13); the placeholder (C11, C12); the labels' round trips, width and alphabet (C29
  to C32). Three defects of the code are stated as theorems: the shuffle stall at the
  end of an episode (C19), the accumulation of \<open>timeupdate\<close> listeners (C20), and the
  TypeError of the listener of a removed element (C8).

  \<^emph>\<open>Choices.\<close> JavaScript numbers used as indices and seconds are \<open>int\<close> (no
  arithmetic of the code overflows); \<open>currentTime\<close> and \<open>Math.random()\<close> are
  \<open>real\<close>. No loop of the code iterates; the only recursions are structural (listener
  dispatch, digit printing). The labels pass the seconds to the formatter unchanged; it
  computes with JavaScript's floor division and truncating remainder, so a negative
  value prints minus signs (C32), which reachable progress never is (C2). The browser
  follows the HTML media rules the Player relies on: reaching the end pauses the element
  and queues \<open>pause\<close> then \<open>ended\<close>; \<open>play()\<close> after the end restarts at 0; a
  new \<open>src\<close> reloads and drops the old source's queued events; removing a playing
  element pauses it and queues \<open>timeupdate\<close>. React's \<open>onPause\<close> of a removed
  element is not modelled (its dispatch after unmount depends on the React version,
  which is not in the sources). The environment (pages calling
  \<open>play\<close>/\<open>playList\<close>, rc-slider emitting values in \<open>[0, duration]\<close>, the element's
  signals) is the predicate \<open>event_ok\<close>. Not modelled: styles, class names,
  \<open>next/image\<close> and static markup, the header and pages, network failures of the
  element (spec section 7: metadata never arrives, so progress stays put, which C21
  covers).
\<close>

lemma sample_reachable:
  "app_reachable (store_event (PlayList sample_queue 2) initial_app)"
proof (rule app_reachable.step [OF app_reachable.init])
  show "event_ok initial_app (UI (SelectList sample_queue 2))" by (simp add: sample_queue_def)
  show "app_step (UI (SelectList sample_queue 2)) initial_app =
          Inr (store_event (PlayList sample_queue 2) initial_app)" by simp
qed

lemma sample_reachable_0:
  "app_reachable (store_event (PlayList sample_queue 0) initial_app)"
proof (rule app_reachable.step [OF app_reachable.init])
  show "event_ok initial_app (UI (SelectList sample_queue 0))" by (simp add: sample_queue_def)
  show "app_step (UI (SelectList sample_queue 0)) initial_app =
          Inr (store_event (PlayList sample_queue 0) initial_app)" by simp
qed

lemma sample_reachable_paused:
  "app_reachable (store_event TogglePlay (store_event (PlayList sample_queue 0) initial_app))"
proof (rule app_reachable.step [OF sample_reachable_0])
  show "event_ok (store_event (PlayList sample_queue 0) initial_app) (UI ClickPlayPause)" by simp
  show "app_step (UI ClickPlayPause) (store_event (PlayList sample_queue 0) initial_app) =
          Inr (store_event TogglePlay (store_event (PlayList sample_queue 0) initial_app))"
    by (simp add: app_eval playpause_disabled_def sample_queue_def)
qed

lemma sample_reachable_shuffling:
  "app_reachable (store_event ToggleShuffle (store_event (PlayList sample_queue 0) initial_app))"
proof (rule app_reachable.step [OF sample_reachable_0])
  show "event_ok (store_event (PlayList sample_queue 0) initial_app) (UI ClickShuffle)" by simp
  show "app_step (UI ClickShuffle) (store_event (PlayList sample_queue 0) initial_app) =
          Inr (store_event ToggleShuffle (store_event (PlayList sample_queue 0) initial_app))"
    by (simp add: app_eval shuffle_disabled_def sample_queue_def)
qed

text \<open>C2: In every reachable state of the application, an audio element is mounted exactly when there is a current episode, it plays that episode's URL and loops as isLooping says, and progress is never negative.\<close>

theorem element_follows_store:
  assumes "app_reachable a"
  shows "(audioRef (view a) = None \<longleftrightarrow> episode (store a) = None) \<and>
         (\<forall>au. audioRef (view a) = Some au \<longrightarrow>
            map_option url (episode (store a)) = Some (src au) \<and> loop au = isLooping (store a)) \<and>
         0 \<le> progress (view a)"
  using app_reachable_app_inv [OF assms] by (auto simp: app_inv_def split: option.splits)

theorem element_follows_store_witness:
  "app_reachable (store_event (PlayList sample_queue 2) initial_app) \<and>
   audioRef (view (store_event (PlayList sample_queue 2) initial_app)) \<noteq> None"
  using element_follows_store [OF sample_reachable] sample_reachable
  by (simp add: app_eval sample_queue_def)

text \<open>C20: In every reachable state the mounted element carries exactly one timeupdate listener per loadedmetadata signal it has sent: setupProgressListener adds one each time and nothing removes them.\<close>

theorem listeners_match_metadata_loads:
  "app_reachable a \<Longrightarrow> audioRef (view a) = Some au \<Longrightarrow> timeupdate_listeners au = metadata_loads au"
  using app_reachable_app_inv app_inv_audio_ok by (auto simp: audio_ok_def)

text \<open>C3: In a reachable state, an event the environment may deliver makes a handler throw exactly when it is the timeupdate task of an element React removed while playing, no element is mounted, and that element carries a listener (which then reads a null audioRef.current).\<close>

theorem app_step_throws_iff:
  assumes "app_reachable a" and "event_ok a e"
  shows "(\<exists>err. app_step e a = Inl err) \<longleftrightarrow>
         e = RemovedTimeUpdate \<and> audioRef (view a) = None \<and> 0 < timeupdate_listeners (hd (removed a))"
proof (cases "e = RemovedTimeUpdate")
  case False
  with app_inv_step_total [OF app_reachable_app_inv [OF assms(1)] assms(2)] show ?thesis by auto
next
  case True
  with assms(2) obtain au rest where q: "removed a = au # rest" by (cases "removed a") auto
  show ?thesis
  proof (cases "audioRef (view a)")
    case None
    with True q show ?thesis by (simp add: view_event_def fire_timeupdate_unmounted)
  next
    case (Some au')
    with True q show ?thesis by (simp add: view_event_def fire_timeupdate_mounted)
  qed
qed

text \<open>C8: A reachable run makes the timeupdate listener throw: after the metadata of a playing episode loaded, playList([], 0) unmounts the playing element, the browser pauses it and fires timeupdate, and the listener reads audioRef.current, now null.\<close>

theorem removed_listener_throws:
  "\<exists>a. app_reachable a \<and> event_ok a RemovedTimeUpdate \<and> app_step RemovedTimeUpdate a = Inl TypeError"
proof -
  let ?a0 = "store_event (PlayList sample_queue 0) initial_app"
  let ?a1 = "projr (app_step (Media LoadedMetadata) ?a0)"
  let ?a2 = "store_event (PlayList [] 0) ?a1"
  have r1: "app_reachable ?a1"
  proof (rule app_reachable.step [OF sample_reachable_0])
    show "event_ok ?a0 (Media LoadedMetadata)" by (simp add: app_eval sample_queue_def)
    show "app_step (Media LoadedMetadata) ?a0 = Inr ?a1"
      by (simp add: app_eval sample_queue_def setupProgressListener_def)
  qed
  have r2: "app_reachable ?a2"
    by (rule app_reachable.step [OF r1, of "UI (SelectList [] 0)"]) simp_all
  have "event_ok ?a2 RemovedTimeUpdate \<and> app_step RemovedTimeUpdate ?a2 = Inl TypeError"
    by (simp add: app_eval sample_queue_def setupProgressListener_def removal_def)
  with r2 show ?thesis by blast
qed

text \<open>C16: Whenever the element's paused state disagrees with isPlaying in a reachable state, the element's own play or pause signal is enabled and, through setPlayingState and the effect, brings the two back into agreement.\<close>

theorem primitive_signal_reconciles:
  assumes "app_reachable a" and "\<not> reconciled a"
  shows "\<exists>e a'. event_ok a (Media e) \<and> app_step (Media e) a = Inr a' \<and> reconciled a'"
proof -
  have inv: "app_inv a" using app_reachable_app_inv [OF assms(1)] .
  from assms(2) obtain au where au: "audioRef (view a) = Some au"
    and p: "paused au = isPlaying (store a)"
    by (auto simp: reconciled_def split: option.splits)
  let ?e = "if paused au then MediaPause else MediaPlay"
  let ?a' = "store_event (SetPlayingState (\<not> paused au)) a"
  have "event_ok a (Media ?e)" using au by simp
  moreover have "app_step (Media ?e) a = Inr ?a'" using au by simp
  moreover have "reconciled ?a'"
    using store_event_playing [OF inv au, of "\<not> paused au"] p
    by (simp add: reconciled_def setPlayingState_def)
  ultimately show ?thesis by blast
qed

text \<open>C17: In a reachable state where the element agrees with isPlaying, the play or pause signal the element emits in response to the effect's own command leaves the whole application unchanged, so there is no feedback loop.\<close>

theorem own_command_echo_is_noop:
  assumes "app_reachable a" and "reconciled a" and "e = MediaPlay \<or> e = MediaPause"
    and "event_ok a (Media e)"
  shows "app_step (Media e) a = Inr a"
proof -
  have inv: "app_inv a" using app_reachable_app_inv [OF assms(1)] .
  from assms(4) obtain au where au: "audioRef (view a) = Some au" and ok: "media_ok au e"
    by (auto split: option.splits)
  with assms(2) have p: "paused au = (\<not> isPlaying (store a))" by (simp add: reconciled_def)
  from assms(3) show ?thesis
  proof
    assume "e = MediaPlay"
    with ok p au store_event_playing [OF inv au, of True] show ?thesis by simp
  next
    assume "e = MediaPause"
    with ok p au store_event_playing [OF inv au, of False] show ?thesis by simp
  qed
qed

text \<open>C18: Clicking the enabled play/pause button flips isPlaying, and the effect then pauses or plays the mounted element to match it.\<close>

theorem playpause_click_drives_element:
  assumes "app_reachable a" and "episode (store a) \<noteq> None"
    and "app_step (UI ClickPlayPause) a = Inr a'"
  shows "isPlaying (store a') = (\<not> isPlaying (store a)) \<and> audioRef (view a') \<noteq> None \<and> reconciled a'"
proof -
  have inv: "app_inv a" using app_reachable_app_inv [OF assms(1)] .
  obtain au where au: "audioRef (view a) = Some au" using app_inv_mounted [OF inv assms(2)] by blast
  from assms(2,3) have "a' = store_event (SetPlayingState (\<not> isPlaying (store a))) a"
    by (auto simp: playpause_disabled_def store_event_TogglePlay)
  with store_event_playing [OF inv au, of "\<not> isPlaying (store a)"] show ?thesis
    by (simp add: reconciled_def setPlayingState_def)
qed

text \<open>C4: When the last episode ends with shuffle off, handleEpisodeEnded clears the store: the queue is empty, the index is 0 and the audio element is unmounted.\<close>

theorem ended_at_last_clears:
  assumes "app_reachable a" and "\<not> isShuffling (store a)"
    and "currentEpisodeIndex (store a) + 1 = int (length (episodeList (store a)))"
    and "audioRef (view a) = Some au" and "app_step (Media (Ended rnd)) a = Inr a'"
  shows "episodeList (store a') = [] \<and> currentEpisodeIndex (store a') = 0 \<and> audioRef (view a') = None"
proof -
  have inv: "app_inv a" using app_reachable_app_inv [OF assms(1)] .
  have clr: "handleEpisodeEnded rnd (store a) = clearPlayerState (store a)"
    using assms(2,3) by (simp add: handleEpisodeEnded_def hasNext_def)
  from ended_step [OF inv assms(4), of rnd] assms(5) clr show ?thesis
    by (auto simp: render_audio_def episode_def clearPlayerState_def)
qed

text \<open>C5: When an episode with a successor ends and shuffle is off, the index advances by one and the element plays the next episode's URL, restarted from 0 and unpaused when that URL differs.\<close>

theorem ended_with_next_advances:
  assumes "app_reachable a" and "\<not> isShuffling (store a)" and "hasNext (store a)"
    and "audioRef (view a) = Some au" and "app_step (Media (Ended rnd)) a = Inr a'"
  shows "currentEpisodeIndex (store a') = currentEpisodeIndex (store a) + 1 \<and>
         (\<exists>ep au'. episode (store a') = Some ep \<and> audioRef (view a') = Some au' \<and> src au' = url ep \<and>
                   (url ep \<noteq> src au \<longrightarrow> currentTime au' = 0 \<and> \<not> paused au'))"
proof -
  have inv: "app_inv a" using app_reachable_app_inv [OF assms(1)] .
  let ?s' = "playNext rnd (store a)"
  have s': "handleEpisodeEnded rnd (store a) = ?s'" using assms(3) by (simp add: handleEpisodeEnded_def)
  have idx: "currentEpisodeIndex ?s' = currentEpisodeIndex (store a) + 1"
    using assms(2,3) by (simp add: playNext_def)
  have "0 \<le> currentEpisodeIndex (store a)" using inv by (simp add: app_inv_def index_ok_def)
  moreover have "currentEpisodeIndex (store a) + 1 < int (length (episodeList (store a)))"
    using assms(2,3) by (simp add: hasNext_def)
  moreover have "episodeList ?s' = episodeList (store a)" by (simp add: playNext_def)
  ultimately obtain ep where ep: "episode ?s' = Some ep"
    using idx by (simp add: episode_def js_nth_def)
  let ?au = "au\<lparr>ended_queued := False\<rparr>"
  have a': "a' = commit (a\<lparr>store := ?s', view := (view a)\<lparr>audioRef := Some ?au\<rparr>\<rparr>)"
    using ended_step [OF inv assms(4), of rnd] assms(5) s' by simp
  have "audioRef (view a') = render_audio ?s' (Some ?au)"
    using ended_step [OF inv assms(4), of rnd] assms(5) s' by simp
  with ep have "audioRef (view a') = Some ((set_src (url ep) ?au)\<lparr>loop := isLooping ?s'\<rparr>)"
    by (simp add: render_audio_def)
  moreover have "store a' = ?s'" using a' by simp
  ultimately show ?thesis using idx ep
    by (simp add: set_src_def)
qed

text \<open>C19: With shuffle on, the ended event of an element at its end can draw the current index again; the source is then unchanged, so the element is not reloaded and stays paused at its end although hasNext still holds.\<close>

theorem shuffle_end_may_stall:
  assumes "app_reachable a" and "isShuffling (store a)" and "audioRef (view a) = Some au"
    and "ended au"
  shows "\<exists>rnd a' au'. 0 \<le> rnd \<and> rnd < 1 \<and> app_step (Media (Ended rnd)) a = Inr a' \<and>
           store a' = store a \<and> hasNext (store a') \<and> audioRef (view a') = Some au' \<and>
           paused au' \<and> ended au' \<and> src au' = src au \<and> currentTime au' = currentTime au"
proof -
  have inv: "app_inv a" using app_reachable_app_inv [OF assms(1)] .
  obtain ep where ep: "episode (store a) = Some ep" and src: "src au = url ep"
    using episode_mounted [OF inv assms(3)] by blast
  have ne: "episodeList (store a) \<noteq> []" using ep by (auto simp: episode_def)
  have ix: "index_ok (store a)" using inv by (simp add: app_inv_def)
  let ?r = "real_of_int (currentEpisodeIndex (store a)) / real (length (episodeList (store a)))"
  from playNext_shuffle_same [OF assms(2) ix ne]
  have same: "playNext ?r (store a) = store a" and r: "0 \<le> ?r" "?r < 1" by auto
  have hs: "handleEpisodeEnded ?r (store a) = store a"
    using assms(2) same by (simp add: handleEpisodeEnded_def hasNext_def)
  have lp: "loop au = isLooping (store a)" and ps: "paused au"
    using inv assms(3,4) by (auto simp: app_inv_def audio_ok_def)
  let ?au' = "au\<lparr>ended_queued := False\<rparr>"
  let ?a' = "commit (a\<lparr>store := handleEpisodeEnded ?r (store a), view := (view a)\<lparr>audioRef := Some ?au'\<rparr>\<rparr>)"
  have st: "app_step (Media (Ended ?r)) a = Inr ?a'" using ended_step [OF inv assms(3)] by simp
  have "audioRef (view ?a') = Some ?au'"
    using ended_step [OF inv assms(3), of ?r] hs ep src lp by (simp add: render_audio_def)
  moreover have "store ?a' = store a" using hs by simp
  ultimately show ?thesis using st r assms(2,4) ps
    by (intro exI [of _ ?r] exI [of _ ?a'] exI [of _ ?au']) (simp add: hasNext_def)
qed

text \<open>C21: A timeupdate signal sets progress to the floor of the element's time once metadata has loaded at least once, however many listeners have piled up, and leaves progress unchanged before that.\<close>

theorem timeupdate_sets_progress:
  assumes "app_reachable a" and "audioRef (view a) = Some au"
    and "app_step (Media (TimeUpdate t)) a = Inr a'"
  shows "progress (view a') = (if metadata_loads au = 0 then progress (view a) else \<lfloor>t\<rfloor>)"
proof -
  have inv: "app_inv a" using app_reachable_app_inv [OF assms(1)] .
  have n: "timeupdate_listeners au = metadata_loads au"
    using app_inv_audio_ok [OF inv assms(2)] by (simp add: audio_ok_def)
  from assms(2,3) n show ?thesis
    by (auto simp: view_event_def fire_timeupdate_mounted)
qed

text \<open>C22: Moving the slider with a mounted element sets the element's time and progress to the chosen value at once and changes nothing else of the application.\<close>

theorem seek_sets_time_and_progress:
  assumes "app_reachable a" and "audioRef (view a) = Some au"
  shows "app_step (UI (SlideTo amount)) a =
           Inr (a\<lparr>view := (view a)\<lparr>audioRef := Some (au\<lparr>currentTime := real_of_int amount\<rparr>),
                                    progress := amount\<rparr>\<rparr>)"
proof -
  have inv: "app_inv a" using app_reachable_app_inv [OF assms(1)] .
  obtain ep where ep: "episode (store a) = Some ep" and u: "src au = url ep"
    using episode_mounted [OF inv assms(2)] by blast
  have lp: "loop au = isLooping (store a)" using inv assms(2) by (simp add: app_inv_def)
  let ?a' = "a\<lparr>view := (view a)\<lparr>audioRef := Some (au\<lparr>currentTime := real_of_int amount\<rparr>),
                                    progress := amount\<rparr>\<rparr>"
  have "commit ?a' = ?a'"
    using inv ep u lp by (simp add: commit_def Let_def render_audio_def app_inv_def)
  with ep assms(2) show ?thesis by (simp add: slider_max_def view_event_def handleSeek_def)
qed

text \<open>C9: In every reachable state with a mounted element, the rendered panel and slider show episodeList[currentEpisodeIndex], the element plays that episode's URL, and the rendered audio attributes are the element's source and loop flag.\<close>

theorem screen_shows_current_episode:
  assumes "app_reachable a" and "audioRef (view a) = Some au"
  shows "panel (render_player (store a) (view a)) =
           CurrentEpisode (thumbnail (episodeList (store a) ! nat (currentEpisodeIndex (store a))))
                          (title (episodeList (store a) ! nat (currentEpisodeIndex (store a))))
                          (members (episodeList (store a) ! nat (currentEpisodeIndex (store a)))) \<and>
         slider (render_player (store a) (view a)) =
           SliderView (duration (episodeList (store a) ! nat (currentEpisodeIndex (store a))))
                      (progress (view a)) \<and>
         src au = url (episodeList (store a) ! nat (currentEpisodeIndex (store a))) \<and>
         audio_attrs (render_player (store a) (view a)) = Some (src au, loop au)"
proof -
  have inv: "app_inv a" using app_reachable_app_inv [OF assms(1)] .
  obtain ep where ep: "episode (store a) = Some ep" and u: "src au = url ep"
    using episode_mounted [OF inv assms(2)] by blast
  have cur: "ep = episodeList (store a) ! nat (currentEpisodeIndex (store a))"
    using ep by (simp add: episode_def js_nth_def split: if_splits)
  have "loop au = isLooping (store a)" using inv assms(2) by (simp add: app_inv_def)
  with render_player_episode [OF ep, of "view a"] u cur show ?thesis by simp
qed

text \<open>C14: Clicking loop with a mounted element flips isLooping and sets the same element's loop flag to match without reloading it.\<close>

theorem loop_click_updates_element:
  assumes "app_reachable a" and "audioRef (view a) = Some au"
  shows "app_step (UI ClickLoop) a =
           Inr (a\<lparr>store := toggleLoop (store a),
                  view := (view a)\<lparr>audioRef := Some (au\<lparr>loop := \<not> loop au\<rparr>)\<rparr>\<rparr>) \<and>
         isLooping (toggleLoop (store a)) = (\<not> isLooping (store a)) \<and>
         loop au = isLooping (store a)"
proof -
  have inv: "app_inv a" using app_reachable_app_inv [OF assms(1)] .
  obtain ep where ep: "episode (store a) = Some ep"
    using episode_mounted [OF inv assms(2)] by blast
  have "loop au = isLooping (store a)" using inv assms(2) by (simp add: app_inv_def)
  with store_event_ToggleLoop [OF inv] ep assms(2) show ?thesis
    by (simp add: loop_disabled_def toggleLoop_def)
qed

text \<open>C13: Changing the episode by previous, next, a page's play/playList or the end of an episode leaves progress, hence the elapsed label and the slider's value, at the old value; only the element's time is reset.\<close>

theorem episode_change_keeps_progress:
  assumes "e \<in> {UI ClickPrevious, UI (ClickNext rnd), UI (SelectEpisode ep), UI (SelectList list i),
                Media (Ended rnd)}"
    and "app_step e a = Inr a'"
  shows "progress (view a') = progress (view a) \<and>
         elapsed_text (render_player (store a') (view a')) = elapsed_text (render_player (store a) (view a))"
proof -
  have "progress (view a') = progress (view a)"
    using assms by (auto simp: store_event_def split: if_splits option.splits)
  then show ?thesis by (simp add: render_player_def progress_label_def)
qed

theorem listeners_match_metadata_loads_witness:
  "app_reachable (store_event (PlayList sample_queue 2) initial_app) \<and>
   audioRef (view (store_event (PlayList sample_queue 2) initial_app)) =
     Some (audio_play (new_audio ''ep-3.mp3'' False)) \<and>
   timeupdate_listeners (audio_play (new_audio ''ep-3.mp3'' False)) =
     metadata_loads (audio_play (new_audio ''ep-3.mp3'' False))"
proof -
  have h: "audioRef (view (store_event (PlayList sample_queue 2) initial_app)) =
             Some (audio_play (new_audio ''ep-3.mp3'' False))"
    by (simp add: app_eval sample_queue_def sample_episode_def del: audio_defs)
  show ?thesis using sample_reachable h listeners_match_metadata_loads [OF sample_reachable h] by blast
qed

theorem app_step_throws_iff_witness:
  "app_reachable (store_event (PlayList sample_queue 2) initial_app) \<and>
   event_ok (store_event (PlayList sample_queue 2) initial_app) (UI (SlideTo 10)) \<and>
   \<not> (\<exists>err. app_step (UI (SlideTo 10)) (store_event (PlayList sample_queue 2) initial_app) = Inl err)"
proof -
  have h: "event_ok (store_event (PlayList sample_queue 2) initial_app) (UI (SlideTo 10))"
    by (simp add: app_eval slider_max_def sample_queue_def sample_episode_def)
  show ?thesis using sample_reachable h app_step_throws_iff [OF sample_reachable h] by blast
qed

theorem primitive_signal_reconciles_witness:
  "app_reachable (store_event (PlayNext 0) (store_event TogglePlay (store_event (PlayList sample_queue 0) initial_app))) \<and>
   \<not> reconciled (store_event (PlayNext 0) (store_event TogglePlay (store_event (PlayList sample_queue 0) initial_app))) \<and>
   (\<exists>e a'. event_ok (store_event (PlayNext 0) (store_event TogglePlay (store_event (PlayList sample_queue 0) initial_app))) (Media e) \<and>
      app_step (Media e) (store_event (PlayNext 0) (store_event TogglePlay (store_event (PlayList sample_queue 0) initial_app))) = Inr a' \<and>
      reconciled a')"
proof -
  let ?a = "store_event TogglePlay (store_event (PlayList sample_queue 0) initial_app)"
  have r: "app_reachable (store_event (PlayNext 0) ?a)"
  proof (rule app_reachable.step [OF sample_reachable_paused])
    show "event_ok ?a (UI (ClickNext 0))" by simp
    show "app_step (UI (ClickNext 0)) ?a = Inr (store_event (PlayNext 0) ?a)"
      by (simp add: app_eval next_disabled_def sample_queue_def hasNext_def)
  qed
  have u: "\<not> reconciled (store_event (PlayNext 0) ?a)"
    by (simp add: app_eval reconciled_def sample_queue_def sample_episode_def)
  show ?thesis using r u primitive_signal_reconciles [OF r u] by blast
qed

theorem own_command_echo_is_noop_witness:
  "app_reachable (store_event (PlayList sample_queue 2) initial_app) \<and>
   reconciled (store_event (PlayList sample_queue 2) initial_app) \<and>
   event_ok (store_event (PlayList sample_queue 2) initial_app) (Media MediaPlay) \<and>
   app_step (Media MediaPlay) (store_event (PlayList sample_queue 2) initial_app) =
     Inr (store_event (PlayList sample_queue 2) initial_app)"
proof -
  have r: "reconciled (store_event (PlayList sample_queue 2) initial_app)"
    by (simp add: app_eval reconciled_def sample_queue_def)
  have e: "event_ok (store_event (PlayList sample_queue 2) initial_app) (Media MediaPlay)"
    by (simp add: app_eval sample_queue_def)
  show ?thesis
    using sample_reachable r e own_command_echo_is_noop [OF sample_reachable r _ e] by blast
qed

theorem playpause_click_drives_element_witness:
  "app_reachable (store_event (PlayList sample_queue 2) initial_app) \<and>
   episode (store (store_event (PlayList sample_queue 2) initial_app)) \<noteq> None \<and>
   (\<exists>a'. app_step (UI ClickPlayPause) (store_event (PlayList sample_queue 2) initial_app) = Inr a' \<and>
      \<not> isPlaying (store a') \<and> reconciled a')"
proof -
  let ?a = "store_event (PlayList sample_queue 2) initial_app"
  have e: "episode (store ?a) \<noteq> None" by (simp add: app_eval sample_queue_def)
  have p: "isPlaying (store ?a)" by (simp add: app_eval)
  obtain a' where st: "app_step (UI ClickPlayPause) ?a = Inr a'" by simp
  show ?thesis using sample_reachable e p st playpause_click_drives_element [OF sample_reachable e st] by auto
qed

theorem ended_at_last_clears_witness:
  "app_reachable (store_event (PlayList sample_queue 2) initial_app) \<and>
   \<not> isShuffling (store (store_event (PlayList sample_queue 2) initial_app)) \<and>
   currentEpisodeIndex (store (store_event (PlayList sample_queue 2) initial_app)) + 1 =
     int (length (episodeList (store (store_event (PlayList sample_queue 2) initial_app)))) \<and>
   (\<exists>a'. app_step (Media (Ended 0)) (store_event (PlayList sample_queue 2) initial_app) = Inr a' \<and>
      episodeList (store a') = [] \<and> audioRef (view a') = None)"
proof -
  let ?a = "store_event (PlayList sample_queue 2) initial_app"
  have h2: "\<not> isShuffling (store ?a)" by (simp add: app_eval)
  have h3: "currentEpisodeIndex (store ?a) + 1 = int (length (episodeList (store ?a)))"
    by (simp add: app_eval sample_queue_def)
  obtain au where h4: "audioRef (view ?a) = Some au" by (simp add: app_eval sample_queue_def)
  obtain a' where st: "app_step (Media (Ended 0)) ?a = Inr a'" using h4 by simp
  show ?thesis using sample_reachable h2 h3 st ended_at_last_clears [OF sample_reachable h2 h3 h4 st] by blast
qed

theorem ended_with_next_advances_witness:
  "app_reachable (store_event (PlayList sample_queue 0) initial_app) \<and>
   \<not> isShuffling (store (store_event (PlayList sample_queue 0) initial_app)) \<and>
   hasNext (store (store_event (PlayList sample_queue 0) initial_app)) \<and>
   (\<exists>a'. app_step (Media (Ended 0)) (store_event (PlayList sample_queue 0) initial_app) = Inr a' \<and>
      currentEpisodeIndex (store a') = 1)"
proof -
  let ?a = "store_event (PlayList sample_queue 0) initial_app"
  have h2: "\<not> isShuffling (store ?a)" by (simp add: app_eval)
  have h3: "hasNext (store ?a)" by (simp add: app_eval hasNext_def sample_queue_def)
  obtain au where h4: "audioRef (view ?a) = Some au" by (simp add: app_eval sample_queue_def)
  obtain a' where st: "app_step (Media (Ended 0)) ?a = Inr a'" using h4 by simp
  have "currentEpisodeIndex (store a') = currentEpisodeIndex (store ?a) + 1"
    using ended_with_next_advances [OF sample_reachable_0 h2 h3 h4 st] by blast
  then have "currentEpisodeIndex (store a') = 1" by (simp add: app_eval)
  with sample_reachable_0 h2 h3 st show ?thesis by blast
qed

theorem shuffle_end_may_stall_witness:
  "app_reachable (projr (app_step (Media ReachEnd) (store_event ToggleShuffle (store_event (PlayList sample_queue 0) initial_app)))) \<and>
   isShuffling (store (projr (app_step (Media ReachEnd) (store_event ToggleShuffle (store_event (PlayList sample_queue 0) initial_app))))) \<and>
   audioRef (view (projr (app_step (Media ReachEnd) (store_event ToggleShuffle (store_event (PlayList sample_queue 0) initial_app))))) =
     Some (playback_ended (audio_play (new_audio ''ep-1.mp3'' False))) \<and>
   ended (playback_ended (audio_play (new_audio ''ep-1.mp3'' False))) \<and>
   (\<exists>rnd a' au'. 0 \<le> rnd \<and> rnd < 1 \<and>
      app_step (Media (Ended rnd)) (projr (app_step (Media ReachEnd) (store_event ToggleShuffle (store_event (PlayList sample_queue 0) initial_app)))) = Inr a' \<and>
      hasNext (store a') \<and> audioRef (view a') = Some au' \<and> paused au')"
proof -
  let ?a = "store_event ToggleShuffle (store_event (PlayList sample_queue 0) initial_app)"
  let ?b = "projr (app_step (Media ReachEnd) ?a)"
  have au: "audioRef (view ?a) = Some (audio_play (new_audio ''ep-1.mp3'' False))"
    by (simp add: app_eval sample_queue_def sample_episode_def del: audio_defs)
  have r: "app_reachable ?b"
  proof (rule app_reachable.step [OF sample_reachable_shuffling])
    show "event_ok ?a (Media ReachEnd)" using au by (simp add: audio_play_def new_audio_def)
    show "app_step (Media ReachEnd) ?a = Inr ?b" using au by simp
  qed
  have h2: "isShuffling (store ?b)" using au by (simp add: app_eval)
  have h3: "audioRef (view ?b) = Some (playback_ended (audio_play (new_audio ''ep-1.mp3'' False)))"
    using au by simp
  have h4: "ended (playback_ended (audio_play (new_audio ''ep-1.mp3'' False)))"
    by (simp add: playback_ended_def)
  show ?thesis using r h2 h3 h4 shuffle_end_may_stall [OF r h2 h3 h4] by blast
qed

theorem timeupdate_sets_progress_witness:
  "app_reachable (store_event (PlayList sample_queue 2) initial_app) \<and>
   (\<exists>a'. app_step (Media (TimeUpdate (7 / 2))) (store_event (PlayList sample_queue 2) initial_app) = Inr a' \<and>
      progress (view a') = 0)"
proof -
  let ?a = "store_event (PlayList sample_queue 2) initial_app"
  have h2: "audioRef (view ?a) = Some (audio_play (new_audio ''ep-3.mp3'' False))"
    by (simp add: app_eval sample_queue_def sample_episode_def del: audio_defs)
  obtain a' where st: "app_step (Media (TimeUpdate (7 / 2))) ?a = Inr a'"
    using h2 by (simp add: view_event_def fire_timeupdate_mounted)
  have "progress (view a') = progress (view ?a)"
    using timeupdate_sets_progress [OF sample_reachable h2 st]
    by (simp add: audio_play_def new_audio_def)
  then have "progress (view a') = 0" by (simp add: app_eval)
  with sample_reachable st show ?thesis by blast
qed

theorem seek_sets_time_and_progress_witness:
  "app_reachable (store_event (Play (sample_episode ''ep-1.mp3'' 200)) initial_app) \<and>
   audioRef (view (store_event (Play (sample_episode ''ep-1.mp3'' 200)) initial_app)) =
     Some (audio_play (new_audio ''ep-1.mp3'' False)) \<and>
   (case app_step (UI (SlideTo 50)) (store_event (Play (sample_episode ''ep-1.mp3'' 200)) initial_app) of
      Inl _ \<Rightarrow> False
    | Inr a \<Rightarrow> map_option currentTime (audioRef (view a)) = Some 50 \<and>
               progress_label (view a) = ''00:00:50'' \<and> duration_label (store a) = ''00:03:20'')"
proof -
  let ?a = "store_event (Play (sample_episode ''ep-1.mp3'' 200)) initial_app"
  have r: "app_reachable ?a"
    by (rule app_reachable.step [OF app_reachable.init, of "UI (SelectEpisode (sample_episode ''ep-1.mp3'' 200))"])
       simp_all
  have au: "audioRef (view ?a) = Some (audio_play (new_audio ''ep-1.mp3'' False))"
    by (simp add: app_eval sample_episode_def del: audio_defs)
  have "progress_label \<lparr>progress = 50, audioRef = Some ((audio_play (new_audio ''ep-1.mp3'' False))\<lparr>currentTime := 50\<rparr>)\<rparr> = ''00:00:50''
        \<and> duration_label (store ?a) = ''00:03:20''"
    by (simp add: progress_label_def duration_label_def app_eval sample_episode_def time_string_eval)
  with r au seek_sets_time_and_progress [OF r au, of 50] show ?thesis by (simp add: app_eval)
qed

theorem screen_shows_current_episode_witness:
  "app_reachable (store_event (PlayList sample_queue 2) initial_app) \<and>
   audioRef (view (store_event (PlayList sample_queue 2) initial_app)) =
     Some (audio_play (new_audio ''ep-3.mp3'' False)) \<and>
   panel (render_player (store (store_event (PlayList sample_queue 2) initial_app))
                        (view (store_event (PlayList sample_queue 2) initial_app))) =
     CurrentEpisode [] ''ep-3.mp3'' []"
proof -
  have au: "audioRef (view (store_event (PlayList sample_queue 2) initial_app)) =
              Some (audio_play (new_audio ''ep-3.mp3'' False))"
    by (simp add: app_eval sample_queue_def sample_episode_def del: audio_defs)
  show ?thesis using sample_reachable au screen_shows_current_episode [OF sample_reachable au]
    by (simp add: app_eval sample_queue_def sample_episode_def)
qed

theorem loop_click_updates_element_witness:
  "app_reachable (store_event (PlayList sample_queue 2) initial_app) \<and>
   audioRef (view (store_event (PlayList sample_queue 2) initial_app)) =
     Some (audio_play (new_audio ''ep-3.mp3'' False)) \<and>
   isLooping (store (projr (app_step (UI ClickLoop) (store_event (PlayList sample_queue 2) initial_app))))"
proof -
  have au: "audioRef (view (store_event (PlayList sample_queue 2) initial_app)) =
              Some (audio_play (new_audio ''ep-3.mp3'' False))"
    by (simp add: app_eval sample_queue_def sample_episode_def del: audio_defs)
  show ?thesis using sample_reachable au loop_click_updates_element [OF sample_reachable au]
    by (simp add: app_eval)
qed

theorem episode_change_keeps_progress_witness:
  "let a = projr (app_step (UI (SlideTo 100)) (store_event (PlayList sample_queue 1) initial_app));
       a' = projr (app_step (UI (ClickNext 0)) a)
   in UI (ClickNext 0) \<in> {UI ClickPrevious, UI (ClickNext 0), UI (SelectEpisode (sample_episode [] 0)),
                          UI (SelectList [] 0), Media (Ended 0)} \<and>
      app_step (UI (ClickNext 0)) a = Inr a' \<and> progress (view a) = 100 \<and>
      elapsed_text (render_player (store a') (view a')) = elapsed_text (render_player (store a) (view a)) \<and>
      slider (render_player (store a') (view a')) = SliderView 45 100"
proof -
  define a where "a = projr (app_step (UI (SlideTo 100)) (store_event (PlayList sample_queue 1) initial_app))"
  define a' where "a' = projr (app_step (UI (ClickNext 0)) a)"
  have mem: "UI (ClickNext 0) \<in> {UI ClickPrevious, UI (ClickNext 0), UI (SelectEpisode (sample_episode [] 0)),
                          UI (SelectList [] 0), Media (Ended 0)}" by simp
  have st: "app_step (UI (ClickNext 0)) a = Inr a'" and p: "progress (view a) = 100"
    and sl: "slider (render_player (store a') (view a')) = SliderView 45 (progress (view a'))"
    by (simp_all add: a'_def a_def app_eval sample_queue_def sample_episode_def slider_max_def
      handleSeek_def next_disabled_def hasNext_def render_player_def)
  have "progress (view a') = progress (view a) \<and>
        elapsed_text (render_player (store a') (view a')) = elapsed_text (render_player (store a) (view a))"
    using episode_change_keeps_progress [OF mem st] .
  with st p sl mem show ?thesis
    unfolding Let_def a_def [symmetric] a'_def [symmetric] by simp
qed

end
